theory Spec2Isabelle
  imports Complex_Main
begin

section \<open>Python floats\<close>

text \<open>
  The threshold of \<^verbatim>\<open>get_similarity\<close> is a Python \<^verbatim>\<open>float\<close>, an IEEE-754 binary64
  number, and the loop subtracts \<^verbatim>\<open>0.1\<close> from it repeatedly; the results are not the
  decimal fractions 0.6, 0.5, ... but their correctly rounded neighbours. A finite
  binary64 number is modelled by its integer significand \<open>m\<close> and its exponent \<open>e\<close>:
  the pair \<open>(m, e)\<close> stands for \<open>m * 2 ^ e\<close>, with \<open>\<bar>m\<bar> < 2 ^ 53\<close> and \<open>- 1074 \<le> e\<close>;
  a normal number has \<open>2 ^ 52 \<le> \<bar>m\<bar>\<close>, a subnormal one and zero have \<open>e = - 1074\<close>.
  Infinities and NaN are outside the model: every value of this program lies between
  \<open>- 0.1\<close> and \<open>1\<close>.
\<close>

type_synonym float64 = "int \<times> int"

definition float_val :: "float64 \<Rightarrow> rat" where
  "float_val a = of_int (fst a) * (if 0 \<le> snd a then 2 ^ nat (snd a) else 1 / 2 ^ nat (- snd a))"

fun bit_length :: "nat \<Rightarrow> nat" where
  "bit_length n = (if n = 0 then 0 else Suc (bit_length (n div 2)))"

declare bit_length.simps [simp del]

text \<open>\<open>round_half_even n s\<close> is \<open>n / 2 ^ s\<close> rounded to the nearest integer, ties to even.\<close>

definition round_half_even :: "int \<Rightarrow> nat \<Rightarrow> int" where
  "round_half_even n s =
     (let q = n div 2 ^ s; r = n mod 2 ^ s; half = 2 ^ (s - 1)
      in if r < half then q
         else if half < r then q + 1
         else if even q then q else q + 1)"

text \<open>\<open>round_float n x\<close> is the binary64 number nearest to the exact value \<open>n * 2 ^ x\<close>.\<close>

definition round_float :: "int \<Rightarrow> int \<Rightarrow> float64" where
  "round_float n x =
     (if n = 0 then (0, - 1074)
      else let e = max (x + int (bit_length (nat \<bar>n\<bar>)) - 53) (- 1074)
           in if e \<le> x then (n * 2 ^ nat (x - e), e)
              else let q = round_half_even n (nat (e - x))
                   in if \<bar>q\<bar> = 2 ^ 53 then (q div 2, e + 1) else (q, e))"

text \<open>Python's \<^verbatim>\<open>a - b\<close> on floats: the exact difference, rounded once.\<close>

definition float_sub :: "float64 \<Rightarrow> float64 \<Rightarrow> float64" where
  "float_sub a b =
     (let e = min (snd a) (snd b)
      in round_float (fst a * 2 ^ nat (snd a - e) - fst b * 2 ^ nat (snd b - e)) e)"

text \<open>Python's \<^verbatim>\<open>a <= b\<close> on floats.\<close>

definition float_le :: "float64 \<Rightarrow> float64 \<Rightarrow> bool" where
  "float_le a b =
     (let e = min (snd a) (snd b)
      in fst a * 2 ^ nat (snd a - e) \<le> fst b * 2 ^ nat (snd b - e))"

text \<open>
  Python's \<^verbatim>\<open>round(x, ndigits)\<close> on a float: \<^verbatim>\<open>x\<close> is rounded to the nearest multiple of
  \<open>10 ^ - ndigits\<close> (on the exact binary value, ties to even), and that decimal number is
  converted back to the nearest binary64 number. \<open>round_ratio n d\<close> is \<open>n / d\<close> rounded to
  the nearest integer, ties to even, for \<open>0 < d\<close>; \<open>float_of_ratio n d\<close> is the binary64
  number nearest to \<open>n / d\<close>. The sign of a zero and the overflow of huge values are
  outside the model.
\<close>

definition round_ratio :: "int \<Rightarrow> int \<Rightarrow> int" where
  "round_ratio n d =
     (let q = n div d; r = n mod d
      in if 2 * r < d then q
         else if d < 2 * r then q + 1
         else if even q then q else q + 1)"

definition float_of_ratio :: "int \<Rightarrow> int \<Rightarrow> float64" where
  "float_of_ratio n d =
     (if n = 0 then (0, - 1074)
      else let e0 = int (bit_length (nat \<bar>n\<bar>)) - int (bit_length (nat d)) - 53;
               e1 = (if 2 ^ 53 * d * 2 ^ nat e0 \<le> \<bar>n\<bar> * 2 ^ nat (- e0) then e0 + 1 else e0);
               e = max e1 (- 1074);
               q = round_ratio (n * 2 ^ nat (- e)) (d * 2 ^ nat e)
           in if \<bar>q\<bar> = 2 ^ 53 then (q div 2, e + 1) else (q, e))"

definition py_round :: "float64 \<Rightarrow> nat \<Rightarrow> float64" where
  "py_round x ndigits =
     float_of_ratio
       (round_ratio (fst x * 10 ^ ndigits * 2 ^ nat (snd x)) (2 ^ nat (- snd x)))
       (10 ^ ndigits)"

text \<open>
  The literals of the source: \<^verbatim>\<open>0.7\<close> is \<^verbatim>\<open>0x1.6666666666666p-1\<close> and \<^verbatim>\<open>0.1\<close> is
  \<^verbatim>\<open>0x1.999999999999ap-4\<close>, the binary64 numbers nearest to 7/10 and 1/10.
\<close>

definition float_0_7 :: float64 where
  "float_0_7 = (6305039478318694, - 53)"

definition float_0_1 :: float64 where
  "float_0_1 = (7205759403792794, - 56)"

section \<open>The data of \<^verbatim>\<open>search.py\<close>\<close>

text \<open>
  The SQL statement of \<^verbatim>\<open>get_similarity\<close> is an f-string with four holes (\<^verbatim>\<open>fp\<close>,
  \<^verbatim>\<open>mol_field\<close>, \<^verbatim>\<open>table\<close>, \<^verbatim>\<open>limit\<close>) and two bound parameters (\<^verbatim>\<open>?1\<close> the query
  SMILES, \<^verbatim>\<open>?2\<close> the threshold). A request is the statement with its parameters.
  \<^verbatim>\<open>limit = None\<close> leaves the \<^verbatim>\<open>LIMIT\<close> clause out.
\<close>

record request =
  sql_fp :: string
  sql_mol_field :: string
  sql_table :: string
  sql_limit :: "int option"
  param_query :: string
  param_threshold :: float64

text \<open>A fetched row is the tuple \<^verbatim>\<open>(main.smi, main.id, t)\<close>.\<close>

type_synonym row = "string \<times> string \<times> float64"

text \<open>
  A result row of the worker is \<^verbatim>\<open>res[0] + (mol_id, smi)\<close>:
  \<^verbatim>\<open>(chembl_smi, chembl_id, sim, mol_id, smi)\<close>.
\<close>

type_synonym match = "string \<times> string \<times> float64 \<times> string \<times> string"

text \<open>
  The exceptions of the program: whatever \<^verbatim>\<open>sqlite3\<close> and the file system raise (the
  database cannot be opened or copied, the extension cannot be loaded, a table, column
  or index is missing), the two exceptions of Python's subscript \<^verbatim>\<open>res[0]\<close>, and the
  \<^verbatim>\<open>ValueError\<close> of a pool of no workers.
\<close>

datatype py_error = Sqlite3Error string | OSError string | TypeError | IndexError | ValueError

text \<open>
  The program only reads the database, so a connection is what it answers:
  \<^verbatim>\<open>con.execute(sql, (query, threshold)).fetchall()\<close> returns a list of rows or raises.
\<close>

type_synonym connection = "request \<Rightarrow> py_error + row list"

section \<open>\<^verbatim>\<open>get_similarity\<close>\<close>

text \<open>
  \<^verbatim>\<open>
  def get_similarity(con, fp, mol_field, table, query, limit=1):
      threshold = 0.7
      while threshold >= 0:
          sql = f"""SELECT ... {'LIMIT ' + str(limit) if limit is not None else ''}"""
          res = con.execute(sql, (query, threshold)).fetchall()
          if res:
              return res
          threshold -= 0.1
  \<close>
  The function returns the first non-empty list of rows, or \<^verbatim>\<open>None\<close> when the loop
  ends (\<open>Inr None\<close>); an exception of \<^verbatim>\<open>execute\<close> is not caught (\<open>Inl\<close>). The model
  also returns the requests it has executed, in order. The loop on a float is not
  structurally recursive, so it is a partial function: \<open>None\<close> is a loop that never
  ends.
\<close>

definition statement ::
  "string \<Rightarrow> string \<Rightarrow> string \<Rightarrow> int option \<Rightarrow> string \<Rightarrow> float64 \<Rightarrow> request" where
  "statement fp mol_field table limit query threshold =
     \<lparr>sql_fp = fp, sql_mol_field = mol_field, sql_table = table, sql_limit = limit,
      param_query = query, param_threshold = threshold\<rparr>"

partial_function (option) get_similarity_loop ::
  "connection \<Rightarrow> string \<Rightarrow> string \<Rightarrow> string \<Rightarrow> string \<Rightarrow> int option \<Rightarrow> float64 \<Rightarrow>
   request list \<Rightarrow> (request list \<times> (py_error + row list option)) option" where
  "get_similarity_loop con fp mol_field table query limit threshold executed =
     (if 0 \<le> fst threshold then
        (case con (statement fp mol_field table limit query threshold) of
           Inl e \<Rightarrow>
             Some (executed @ [statement fp mol_field table limit query threshold], Inl e)
         | Inr res \<Rightarrow>
             if res \<noteq> [] then
               Some (executed @ [statement fp mol_field table limit query threshold],
                     Inr (Some res))
             else
               get_similarity_loop con fp mol_field table query limit
                 (float_sub threshold float_0_1)
                 (executed @ [statement fp mol_field table limit query threshold]))
      else Some (executed, Inr None))"

definition get_similarity ::
  "connection \<Rightarrow> string \<Rightarrow> string \<Rightarrow> string \<Rightarrow> string \<Rightarrow> int option \<Rightarrow>
   (request list \<times> (py_error + row list option)) option" where
  "get_similarity con fp mol_field table query limit =
     get_similarity_loop con fp mol_field table query limit float_0_7 []"

text \<open>
  The thresholds at which the loop queries, in order. Python prints them as
  \<^verbatim>\<open>0.7\<close>, \<^verbatim>\<open>0.6\<close>, \<^verbatim>\<open>0.5\<close>, \<^verbatim>\<open>0.4\<close>, \<^verbatim>\<open>0.30000000000000004\<close>, \<^verbatim>\<open>0.20000000000000004\<close>,
  \<^verbatim>\<open>0.10000000000000003\<close> and \<^verbatim>\<open>2.7755575615628914e-17\<close> (which is \<open>2 ^ - 55\<close>); the next
  value, \<^verbatim>\<open>-0.09999999999999998\<close>, ends the loop. That the loop visits exactly these is
  lemma \<open>get_similarity_scan\<close> below.
\<close>

definition thresholds :: "float64 list" where
  "thresholds =
     [(6305039478318694, - 53), (5404319552844595, - 53), (4503599627370496, - 53),
      (7205759403792794, - 54), (5404319552844596, - 54), (7205759403792795, - 55),
      (7205759403792796, - 56), (4503599627370496, - 107)]"

text \<open>
  The loop body over a given list of thresholds, by structural recursion: the form in
  which the loop is reasoned about once the thresholds are known.
\<close>

fun scan ::
  "connection \<Rightarrow> (float64 \<Rightarrow> request) \<Rightarrow> float64 list \<Rightarrow> request list \<Rightarrow>
   request list \<times> (py_error + row list option)" where
  "scan con stmt [] executed = (executed, Inr None)"
| "scan con stmt (t # ts) executed =
     (case con (stmt t) of
        Inl e \<Rightarrow> (executed @ [stmt t], Inl e)
      | Inr res \<Rightarrow>
          if res \<noteq> [] then (executed @ [stmt t], Inr (Some res))
          else scan con stmt ts (executed @ [stmt t]))"

text \<open>
  What a connection answers along the thresholds. \<open>first_match con stmt k rows\<close>: the
  query at the \<open>k\<close>-th threshold is the first that returns rows (the queries at the
  higher thresholds all returned the empty list), and \<open>rows\<close> is what it returns.
  \<open>no_match con stmt\<close>: the query returns the empty list at every threshold.
\<close>

definition first_match :: "connection \<Rightarrow> (float64 \<Rightarrow> request) \<Rightarrow> nat \<Rightarrow> row list \<Rightarrow> bool" where
  "first_match con stmt k rows \<longleftrightarrow>
     k < length thresholds \<and> list_all (\<lambda>t. con (stmt t) = Inr []) (take k thresholds) \<and>
     con (stmt (thresholds ! k)) = Inr rows \<and> rows \<noteq> []"

definition no_match :: "connection \<Rightarrow> (float64 \<Rightarrow> request) \<Rightarrow> bool" where
  "no_match con stmt \<longleftrightarrow> list_all (\<lambda>t. con (stmt t) = Inr []) thresholds"

section \<open>\<^verbatim>\<open>calc_sim_for_smiles\<close>\<close>

text \<open>
  \<^verbatim>\<open>
  def calc_sim_for_smiles(smiles, db_name, fp, mol_field, table):
      with sqlite3.connect(db_name) as con, sqlite3.connect(':memory:') as dest:
          con.backup(dest)
          dest.enable_load_extension(True)
          dest.load_extension('chemicalite')
          dest.enable_load_extension(False)
          all_res = []
          for mol_id, smi in smiles:
              res = get_similarity(dest, fp, mol_field, table, smi, limit=1)
              res = res[0] + (mol_id, smi)
              all_res.append(res)
      return all_res
  \<close>
  Opening the database, copying it to memory and loading the extension is the
  parameter \<open>connect\<close>: it gives the connection \<^verbatim>\<open>dest\<close> or raises. The subscript
  \<^verbatim>\<open>res[0]\<close> raises \<^verbatim>\<open>TypeError\<close> on \<^verbatim>\<open>None\<close> and \<^verbatim>\<open>IndexError\<close> on an empty list.
\<close>

fun for_smiles ::
  "connection \<Rightarrow> string \<Rightarrow> string \<Rightarrow> string \<Rightarrow> (string \<times> string) list \<Rightarrow> match list \<Rightarrow>
   request list \<Rightarrow> (request list \<times> (py_error + match list)) option" where
  "for_smiles dest fp mol_field table [] all_res executed = Some (executed, Inr all_res)"
| "for_smiles dest fp mol_field table ((mol_id, smi) # rest) all_res executed =
     (case get_similarity dest fp mol_field table smi (Some 1) of
        None \<Rightarrow> None
      | Some (reqs, Inl e) \<Rightarrow> Some (executed @ reqs, Inl e)
      | Some (reqs, Inr None) \<Rightarrow> Some (executed @ reqs, Inl TypeError)
      | Some (reqs, Inr (Some [])) \<Rightarrow> Some (executed @ reqs, Inl IndexError)
      | Some (reqs, Inr (Some ((chembl_smi, chembl_id, sim) # _))) \<Rightarrow>
          for_smiles dest fp mol_field table rest
            (all_res @ [(chembl_smi, chembl_id, sim, mol_id, smi)]) (executed @ reqs))"

definition calc_sim_for_smiles ::
  "(string \<Rightarrow> py_error + connection) \<Rightarrow> (string \<times> string) list \<Rightarrow> string \<Rightarrow> string \<Rightarrow>
   string \<Rightarrow> string \<Rightarrow> (request list \<times> (py_error + match list)) option" where
  "calc_sim_for_smiles connect smiles db_name fp mol_field table =
     (case connect db_name of
        Inl e \<Rightarrow> Some ([], Inl e)
      | Inr dest \<Rightarrow> for_smiles dest fp mol_field table smiles [] [])"

section \<open>\<^verbatim>\<open>main\<close>\<close>

text \<open>\<^verbatim>\<open>cpu_type\<close> clamps the requested number of processes to \<open>[1, cpu_count()]\<close>.\<close>

definition cpu_type :: "int \<Rightarrow> int \<Rightarrow> int" where
  "cpu_type x cpu_count = max 1 (min x cpu_count)"

text \<open>
  \<^verbatim>\<open>chunked = iter(partial(take, args.ncpu, iter(zip(mol_ids, smiles))), [])\<close> calls
  \<^verbatim>\<open>take(ncpu, it)\<close>, which is \<^verbatim>\<open>list(islice(it, ncpu))\<close>, on the same iterator until it
  returns the sentinel \<^verbatim>\<open>[]\<close>.
\<close>

function chunked :: "nat \<Rightarrow> 'a list \<Rightarrow> 'a list list" where
  "chunked n xs = (if take n xs = [] then [] else take n xs # chunked n (drop n xs))"
  by pat_completeness auto
termination
  by (relation "measure (\<lambda>(n, xs). length xs)") auto

declare chunked.simps [simp del]

text \<open>
  \<^verbatim>\<open>p.map(fn, chunked)\<close> of a \<^verbatim>\<open>ProcessPoolExecutor\<close> submits one task for every
  element and returns an iterator over the results of the tasks in the order of the
  elements, whatever the order in which the tasks complete. \<open>completion\<close> is that order:
  the indices of the tasks as they finish. The model of the iterator is the list of the
  futures in the order of submission: \<open>Some r\<close> for a task that has finished with the
  result \<open>r\<close> (a value or an exception), \<open>None\<close> for a task whose result never arrives
  (it is not in \<open>completion\<close>: it never finishes, or it was cancelled before it started;
  or its function does not return).
\<close>

definition executor_map :: "('a \<Rightarrow> 'b option) \<Rightarrow> 'a list \<Rightarrow> nat list \<Rightarrow> 'b option list" where
  "executor_map fn xs completion =
     map (foldl (\<lambda>futures i. if i < length xs then futures(i := fn (xs ! i)) else futures)
            (\<lambda>i. None) completion)
         [0..<length xs]"

text \<open>
  \<^verbatim>\<open>sum(results, [])\<close> takes the results from the iterator one after the other, waiting
  for each, and concatenates them. Taking the result of a task that raised raises its
  exception in the caller: \<^verbatim>\<open>sum\<close> ends there, the iterator cancels the tasks that have
  not started, and the results after it are never looked at. Waiting for a task that
  never finishes blocks the caller (\<open>None\<close>).
\<close>

fun sum_results ::
  "(py_error + match list) option list \<Rightarrow> match list \<Rightarrow> (py_error + match list) option" where
  "sum_results [] acc = Some (Inr acc)"
| "sum_results (None # rest) acc = None"
| "sum_results (Some (Inl e) # rest) acc = Some (Inl e)"
| "sum_results (Some (Inr rows) # rest) acc = sum_results rest (acc @ rows)"

record args =
  input_db :: string
  input_smiles :: string
  output_path :: "string option"
  table :: string
  mol_field :: string
  fp :: string
  threshold :: float64
  limit :: "int option"
  ncpu :: nat

text \<open>
  The lines of the output file: the header and one line for each result,
  \<^verbatim>\<open>f'{smi_sql}\t{mol_id}\t{chembl_smi}\t{chembl_id}\t{round(sim, 4)}\n'\<close>. The model
  keeps the fields of a line; the last is the float \<^verbatim>\<open>round(sim, 4)\<close>, of which Python
  writes the shortest decimal text that reads back as the same float.
\<close>

datatype line = Header | Row string string string string float64

fun write_row :: "match \<Rightarrow> line" where
  "write_row (chembl_smi, chembl_id, sim, mol_id, smi_sql) =
     Row smi_sql mol_id chembl_smi chembl_id (py_round sim 4)"

text \<open>
  \<^verbatim>\<open>
  if os.path.isfile(args.output):
      os.remove(args.output)
  df_mols = pd.read_csv(args.input_smiles, sep=',')
  smiles = df_mols.smi.to_list()
  mol_ids = df_mols.Name.to_list()
  chunked = iter(partial(take, args.ncpu, iter(zip(mol_ids, smiles))), [])
  with open(args.output, 'a') as f, ProcessPoolExecutor(max_workers=args.ncpu) as p:
      f.write('\t'.join(['smi', 'mol_id', 'chembl_smi', 'chembl_id', 'similarity']) + '\n')
      for chembl_smi, chembl_id, sim, mol_id, smi_sql in sum(p.map(
              partial(calc_sim_for_smiles, db_name=args.input_db, fp=args.fp,
                      mol_field=args.mol_field, table=args.table),
              chunked), []):
          f.write(f'{smi_sql}\t{mol_id}\t{chembl_smi}\t{chembl_id}\t{round(sim, 4)}\n')
  \<close>
  \<open>main\<close> takes the parsed arguments. Its world is \<open>connect\<close> (see above), \<open>read_csv\<close>
  (the rows \<open>(Name, smi)\<close> of the input file, or an exception) and the completion order
  of the pool. It returns the lines of the output file and how it ended. The file is
  removed first, so it starts empty; \<^verbatim>\<open>os.path.isfile(None)\<close> raises \<^verbatim>\<open>TypeError\<close>
  when \<^verbatim>\<open>--output\<close> is omitted. \<^verbatim>\<open>ProcessPoolExecutor(max_workers=0)\<close> raises
  \<^verbatim>\<open>ValueError\<close>, after the file has been opened and before the header is written
  (\<^verbatim>\<open>cpu_type\<close> and the default make \<^verbatim>\<open>args.ncpu\<close> at least 1). \<^verbatim>\<open>sum\<close> consumes every
  result before the first row is written, so an exception of a task leaves the header
  alone in the file; leaving the \<^verbatim>\<open>with\<close> block then waits for the tasks that are
  running, each of which returns (lemma \<open>calc_sim_total\<close>).
\<close>

definition main ::
  "(string \<Rightarrow> py_error + connection) \<Rightarrow> (string \<Rightarrow> py_error + (string \<times> string) list) \<Rightarrow>
   args \<Rightarrow> nat list \<Rightarrow> (line list \<times> (py_error + unit)) option" where
  "main connect read_csv a completion =
     (case output_path a of
        None \<Rightarrow> Some ([], Inl TypeError)
      | Some path \<Rightarrow>
          (case read_csv (input_smiles a) of
             Inl e \<Rightarrow> Some ([], Inl e)
           | Inr df_mols \<Rightarrow>
               if ncpu a = 0 then Some ([], Inl ValueError)
               else
                 (case sum_results
                         (executor_map
                            (\<lambda>smiles. map_option snd
                               (calc_sim_for_smiles connect smiles (input_db a) (fp a)
                                  (mol_field a) (table a)))
                            (chunked (ncpu a) (zip (map fst df_mols) (map snd df_mols)))
                            completion)
                         [] of
                    None \<Rightarrow> None
                  | Some (Inl e) \<Rightarrow> Some ([Header], Inl e)
                  | Some (Inr rows) \<Rightarrow> Some (Header # map write_row rows, Inr ()))))"

section \<open>The similarity engine\<close>

text \<open>
  Modelled from the spec: the similarity-range query of the external engine (the
  \<^verbatim>\<open>chemicalite\<close> extension of SQLite and its \<^verbatim>\<open>rdtree_tanimoto\<close> index match), which is
  not part of this repository. The spec: "given a query structure, a fingerprint kind, a
  minimum similarity threshold, and a result cap, return matching rows ordered by
  similarity descending", the candidates being those "whose similarity to the query is
  \<open>\<ge>\<close> threshold". \<open>similarities\<close> gives, for a query SMILES, the rows of the reference
  table with their Tanimoto similarity to the query. A negative \<^verbatim>\<open>LIMIT\<close> is no limit
  in SQLite. It is used for concrete scenarios only; the theorems about the program
  hold for every connection.
\<close>

definition range_query :: "(string \<Rightarrow> row list) \<Rightarrow> connection" where
  "range_query similarities req =
     Inr ((case sql_limit req of
             None \<Rightarrow> (\<lambda>rows. rows)
           | Some n \<Rightarrow> if n < 0 then (\<lambda>rows. rows) else take (nat n))
          (sort_key (\<lambda>(smi, ident, t). - float_val t)
             (filter (\<lambda>(smi, ident, t). float_le (param_threshold req) t)
                (similarities (param_query req)))))"

text \<open>
  A scenario for concrete runs: the reference table holds the one molecule \<^verbatim>\<open>CCO\<close> with
  the identifier \<^verbatim>\<open>ref1\<close>. Its similarity to the query \<^verbatim>\<open>CCO\<close> is \<^verbatim>\<open>1.0\<close>, to the query
  \<^verbatim>\<open>CCN\<close> it is \<^verbatim>\<open>0.55\<close> (\<^verbatim>\<open>0x1.199999999999ap-1\<close>), to the query \<^verbatim>\<open>CCC\<close> it is
  \<^verbatim>\<open>0.6666666666666666\<close> (the float \<^verbatim>\<open>2 / 3\<close>), to the query \<^verbatim>\<open>CC\<close> it is \<^verbatim>\<open>0.3\<close>
  (\<^verbatim>\<open>0x1.3333333333333p-2\<close>, the float \<^verbatim>\<open>3 / 10\<close>), and to every other query it is \<^verbatim>\<open>0.0\<close>.
  The database file is \<^verbatim>\<open>chembl.db\<close>; no other file can be opened.
\<close>

definition example_similarities :: "string \<Rightarrow> row list" where
  "example_similarities query =
     (if query = ''CCO'' then [(''CCO'', ''ref1'', (4503599627370496, - 52))]
      else if query = ''CCN'' then [(''CCO'', ''ref1'', (4953959590107546, - 53))]
      else if query = ''CCC'' then [(''CCO'', ''ref1'', (6004799503160661, - 53))]
      else if query = ''CC'' then [(''CCO'', ''ref1'', (5404319552844595, - 54))]
      else [(''CCO'', ''ref1'', (0, - 1074))])"

definition example_connect :: "string \<Rightarrow> py_error + connection" where
  "example_connect db_name =
     (if db_name = ''chembl.db'' then Inr (range_query example_similarities)
      else Inl (Sqlite3Error ''unable to open database file''))"

text \<open>
  A run of the program in that scenario: three queries in the input file
  \<^verbatim>\<open>queries.csv\<close>, two worker processes, so two chunks: \<^verbatim>\<open>q1\<close> and \<^verbatim>\<open>q3\<close>, then \<^verbatim>\<open>q4\<close>.
  Two more input files: \<^verbatim>\<open>mixed.csv\<close>, whose first query \<^verbatim>\<open>q2\<close> has no row at any
  threshold of the loop, and \<^verbatim>\<open>thirds.csv\<close>, with a similarity that \<^verbatim>\<open>round\<close> changes.
\<close>

definition example_read_csv :: "string \<Rightarrow> py_error + (string \<times> string) list" where
  "example_read_csv path =
     (if path = ''queries.csv''
      then Inr [(''q1'', ''CCO''), (''q3'', ''CCN''), (''q4'', ''CCO'')]
      else if path = ''mixed.csv''
      then Inr [(''q2'', ''XYZ''), (''q1'', ''CCO''), (''q3'', ''CCN'')]
      else if path = ''thirds.csv''
      then Inr [(''q1'', ''CCO''), (''q5'', ''CCC'')]
      else Inl (OSError ''No such file or directory''))"

definition example_args :: args where
  "example_args =
     \<lparr>input_db = ''chembl.db'', input_smiles = ''queries.csv'', output_path = Some ''out.tsv'',
      table = ''mols'', mol_field = ''mol'', fp = ''morgan'', threshold = (6305039478318694, - 53),
      limit = None, ncpu = 2\<rparr>"


text \<open>
  \<open>result_of connect db_name fingerprint field tbl q row\<close>: \<open>row\<close> is the result of the query
  \<open>q\<close>, that is the first row \<^verbatim>\<open>get_similarity\<close> returns for its SMILES on the opened database,
  followed by the id and the SMILES of \<open>q\<close>.
\<close>

definition result_of ::
  "(string \<Rightarrow> py_error + connection) \<Rightarrow> string \<Rightarrow> string \<Rightarrow> string \<Rightarrow> string \<Rightarrow>
   string \<times> string \<Rightarrow> match \<Rightarrow> bool" where
  "result_of connect db_name fingerprint field tbl q row =
     (case connect db_name of
        Inl e \<Rightarrow> False
      | Inr dest \<Rightarrow>
          (case get_similarity dest fingerprint field tbl (snd q) (Some 1) of
             Some (executed, Inr (Some ((chembl_smi, chembl_id, sim) # rest))) \<Rightarrow>
               row = (chembl_smi, chembl_id, sim, fst q, snd q)
           | _ \<Rightarrow> False))"

section \<open>The thresholds of the loop\<close>

text \<open>
  Eight subtractions of \<^verbatim>\<open>0.1\<close>, each rounded to binary64; the eighth result is
  negative and ends the loop.
\<close>

lemma float_sub_steps:
  "float_sub (6305039478318694, - 53) float_0_1 = (5404319552844595, - 53)"
  "float_sub (5404319552844595, - 53) float_0_1 = (4503599627370496, - 53)"
  "float_sub (4503599627370496, - 53) float_0_1 = (7205759403792794, - 54)"
  "float_sub (7205759403792794, - 54) float_0_1 = (5404319552844596, - 54)"
  "float_sub (5404319552844596, - 54) float_0_1 = (7205759403792795, - 55)"
  "float_sub (7205759403792795, - 55) float_0_1 = (7205759403792796, - 56)"
  "float_sub (7205759403792796, - 56) float_0_1 = (4503599627370496, - 107)"
  "float_sub (4503599627370496, - 107) float_0_1 = (- 7205759403792792, - 56)"
  unfolding float_sub_def float_0_1_def round_float_def round_half_even_def Let_def
  by (simp_all add: bit_length.simps)

lemma loop_exit:
  "fst t < 0 \<Longrightarrow> get_similarity_loop con f m tb q lm t ex = Some (scan con (statement f m tb lm q) [] ex)"
  by (subst get_similarity_loop.simps) simp

lemma loop_step:
  assumes "0 \<le> fst t" and "float_sub t float_0_1 = t'"
    and "\<And>ex. get_similarity_loop con f m tb q lm t' ex = Some (scan con (statement f m tb lm q) ts ex)"
  shows "get_similarity_loop con f m tb q lm t ex = Some (scan con (statement f m tb lm q) (t # ts) ex)"
  using assms by (subst get_similarity_loop.simps) (simp split: sum.splits)

lemma get_similarity_scan:
  "get_similarity con f m tb q lm = Some (scan con (statement f m tb lm q) thresholds [])"
  unfolding get_similarity_def thresholds_def float_0_7_def
  apply (rule loop_step [OF _ float_sub_steps(1)], simp)
  apply (rule loop_step [OF _ float_sub_steps(2)], simp)
  apply (rule loop_step [OF _ float_sub_steps(3)], simp)
  apply (rule loop_step [OF _ float_sub_steps(4)], simp)
  apply (rule loop_step [OF _ float_sub_steps(5)], simp)
  apply (rule loop_step [OF _ float_sub_steps(6)], simp)
  apply (rule loop_step [OF _ float_sub_steps(7)], simp)
  apply (rule loop_step [OF _ float_sub_steps(8)], simp)
  apply (rule loop_exit, simp)
  done

text \<open>
  The values: the literals are the binary64 numbers nearest to 7/10 and 1/10, each
  threshold is the exact difference of its predecessor and \<^verbatim>\<open>0.1\<close> up to half a unit in
  the last place, and the list below is what \<^verbatim>\<open>as_integer_ratio\<close> gives in Python for the
  eight thresholds. All of them are positive: the loop never queries at \<^verbatim>\<open>0.0\<close>.
\<close>

lemma float_literals:
  "\<bar>float_val float_0_7 - 7 / 10\<bar> \<le> 1 / 2 ^ 54"
  "\<bar>float_val float_0_1 - 1 / 10\<bar> \<le> 1 / 2 ^ 57"
  "2 ^ 52 \<le> fst float_0_7" "fst float_0_7 < 2 ^ 53"
  "2 ^ 52 \<le> fst float_0_1" "fst float_0_1 < 2 ^ 53"
  by (simp_all add: float_val_def float_0_7_def float_0_1_def)

lemma threshold_values:
  "map float_val thresholds =
     [3152519739159347 / 4503599627370496, 5404319552844595 / 9007199254740992, 1 / 2,
      3602879701896397 / 9007199254740992, 1351079888211149 / 4503599627370496,
      7205759403792795 / 36028797018963968, 1801439850948199 / 18014398509481984,
      1 / 36028797018963968]"
  by (simp add: float_val_def thresholds_def)

lemma thresholds_positive: "list_all (\<lambda>t. 0 < fst t) thresholds"
  by (simp add: thresholds_def)

lemma pow2_shift:
  assumes "e \<le> x"
  shows "(of_int (n * 2 ^ nat (x - e)) :: rat) * (if 0 \<le> e then 2 ^ nat e else 1 / 2 ^ nat (- e)) =
         of_int n * (if 0 \<le> x then 2 ^ nat x else 1 / 2 ^ nat (- x))"
proof -
  have p: "(if 0 \<le> y then 2 ^ nat y else 1 / 2 ^ nat (- y)) = (2 :: rat) powi y" for y :: int
    by (simp add: power_int_def field_simps)
  have "(2 :: rat) powi x = 2 powi (x - e) * 2 powi e"
    by (simp add: power_int_add [symmetric])
  moreover have "(2 :: rat) powi (x - e) = 2 ^ nat (x - e)"
    using assms by (simp add: power_int_def)
  ultimately show ?thesis
    unfolding p by simp
qed

lemma float_le_iff: "float_le a b \<longleftrightarrow> float_val a \<le> float_val b"
proof -
  define e where "e = min (snd a) (snd b)"
  define s :: rat where "s = (if 0 \<le> e then 2 ^ nat e else 1 / 2 ^ nat (- e))"
  have s: "0 < s" by (simp add: s_def)
  have ea: "e \<le> snd a" and eb: "e \<le> snd b" by (simp_all add: e_def)
  have a: "of_int (fst a * 2 ^ nat (snd a - e)) * s = float_val a"
    unfolding s_def float_val_def by (rule pow2_shift [OF ea])
  have b: "of_int (fst b * 2 ^ nat (snd b - e)) * s = float_val b"
    unfolding s_def float_val_def by (rule pow2_shift [OF eb])
  have "float_le a b \<longleftrightarrow> fst a * 2 ^ nat (snd a - e) \<le> fst b * 2 ^ nat (snd b - e)"
    by (simp add: float_le_def e_def Let_def)
  also have "\<dots> \<longleftrightarrow> (of_int (fst a * 2 ^ nat (snd a - e)) :: rat) \<le> of_int (fst b * 2 ^ nat (snd b - e))"
    by (simp only: of_int_le_iff)
  also have "\<dots> \<longleftrightarrow> of_int (fst a * 2 ^ nat (snd a - e)) * s \<le> of_int (fst b * 2 ^ nat (snd b - e)) * s"
    using s by (simp only: mult_le_cancel_right_pos)
  finally show ?thesis unfolding a b .
qed

lemma threshold_steps_rounded:
  "\<bar>float_val (5404319552844595, - 53) - (float_val (6305039478318694, - 53) - float_val float_0_1)\<bar> \<le> 1 / 2 ^ 54"
  "\<bar>float_val (4503599627370496, - 53) - (float_val (5404319552844595, - 53) - float_val float_0_1)\<bar> \<le> 1 / 2 ^ 54"
  "\<bar>float_val (7205759403792794, - 54) - (float_val (4503599627370496, - 53) - float_val float_0_1)\<bar> \<le> 1 / 2 ^ 55"
  "\<bar>float_val (5404319552844596, - 54) - (float_val (7205759403792794, - 54) - float_val float_0_1)\<bar> \<le> 1 / 2 ^ 55"
  "float_val (7205759403792795, - 55) = float_val (5404319552844596, - 54) - float_val float_0_1"
  "float_val (7205759403792796, - 56) = float_val (7205759403792795, - 55) - float_val float_0_1"
  "float_val (4503599627370496, - 107) = float_val (7205759403792796, - 56) - float_val float_0_1"
  "float_val (- 7205759403792792, - 56) = float_val (4503599627370496, - 107) - float_val float_0_1"
  by (simp_all add: float_val_def float_0_1_def)

section \<open>The loop over a list of thresholds\<close>

lemma scan_all_empty:
  "\<forall>t\<in>set ts. con (stmt t) = Inr [] \<Longrightarrow> scan con stmt ts ex = (ex @ map stmt ts, Inr None)"
  by (induction ts arbitrary: ex) simp_all

lemma scan_first:
  "k < length ts \<Longrightarrow> \<forall>j<k. con (stmt (ts ! j)) = Inr [] \<Longrightarrow>
   scan con stmt ts ex =
     (case con (stmt (ts ! k)) of
        Inl e \<Rightarrow> (ex @ map stmt (take (Suc k) ts), Inl e)
      | Inr res \<Rightarrow> if res \<noteq> [] then (ex @ map stmt (take (Suc k) ts), Inr (Some res))
                  else scan con stmt (drop (Suc k) ts) (ex @ map stmt (take (Suc k) ts)))"
proof (induction ts arbitrary: k ex)
  case Nil
  then show ?case by simp
next
  case (Cons t ts)
  show ?case
  proof (cases k)
    case 0
    then show ?thesis by (simp split: sum.splits)
  next
    case (Suc k')
    from Cons.prems Suc have k': "k' < length ts" and empty0: "con (stmt t) = Inr []"
      and rest: "\<forall>j<k'. con (stmt (ts ! j)) = Inr []"
      by auto
    show ?thesis
      using Cons.IH [OF k' rest, of "ex @ [stmt t]"] empty0 unfolding Suc
      by (simp split: sum.splits)
  qed
qed

lemma scan_cases:
  "(\<exists>k<length ts. (\<forall>j<k. con (stmt (ts ! j)) = Inr []) \<and>
      ((\<exists>e. con (stmt (ts ! k)) = Inl e \<and> scan con stmt ts ex = (ex @ map stmt (take (Suc k) ts), Inl e)) \<or>
       (\<exists>res. con (stmt (ts ! k)) = Inr res \<and> res \<noteq> [] \<and>
          scan con stmt ts ex = (ex @ map stmt (take (Suc k) ts), Inr (Some res))))) \<or>
   ((\<forall>t\<in>set ts. con (stmt t) = Inr []) \<and> scan con stmt ts ex = (ex @ map stmt ts, Inr None))"
proof (induction ts arbitrary: ex)
  case Nil
  then show ?case by simp
next
  case (Cons t ts)
  show ?case
  proof (cases "con (stmt t)")
    case (Inl e)
    then have "0 < length (t # ts) \<and> (\<forall>j<0. con (stmt ((t # ts) ! j)) = Inr []) \<and>
      con (stmt ((t # ts) ! 0)) = Inl e \<and>
      scan con stmt (t # ts) ex = (ex @ map stmt (take (Suc 0) (t # ts)), Inl e)"
      by simp
    then show ?thesis by blast
  next
    case (Inr res)
    show ?thesis
    proof (cases "res = []")
      case False
      with Inr have "0 < length (t # ts) \<and> (\<forall>j<0. con (stmt ((t # ts) ! j)) = Inr []) \<and>
        con (stmt ((t # ts) ! 0)) = Inr res \<and> res \<noteq> [] \<and>
        scan con stmt (t # ts) ex = (ex @ map stmt (take (Suc 0) (t # ts)), Inr (Some res))"
        by simp
      then show ?thesis by blast
    next
      case True
      with Inr have step: "scan con stmt (t # ts) ex = scan con stmt ts (ex @ [stmt t])"
        and t: "con (stmt t) = Inr []"
        by simp_all
      from Cons.IH [of "ex @ [stmt t]"] show ?thesis
      proof (elim disjE exE conjE)
        fix k e
        assume k: "k < length ts" and em: "\<forall>j<k. con (stmt (ts ! j)) = Inr []"
          and a: "con (stmt (ts ! k)) = Inl e"
          and s: "scan con stmt ts (ex @ [stmt t]) = ((ex @ [stmt t]) @ map stmt (take (Suc k) ts), Inl e)"
        have "\<forall>j<Suc k. con (stmt ((t # ts) ! j)) = Inr []"
          using em t by (auto simp: less_Suc_eq_0_disj)
        with k a s step have "Suc k < length (t # ts) \<and> (\<forall>j<Suc k. con (stmt ((t # ts) ! j)) = Inr []) \<and>
          con (stmt ((t # ts) ! Suc k)) = Inl e \<and>
          scan con stmt (t # ts) ex = (ex @ map stmt (take (Suc (Suc k)) (t # ts)), Inl e)"
          by simp
        then show ?thesis by blast
      next
        fix k res'
        assume k: "k < length ts" and em: "\<forall>j<k. con (stmt (ts ! j)) = Inr []"
          and a: "con (stmt (ts ! k)) = Inr res'" "res' \<noteq> []"
          and s: "scan con stmt ts (ex @ [stmt t]) = ((ex @ [stmt t]) @ map stmt (take (Suc k) ts), Inr (Some res'))"
        have "\<forall>j<Suc k. con (stmt ((t # ts) ! j)) = Inr []"
          using em t by (auto simp: less_Suc_eq_0_disj)
        with k a s step have "Suc k < length (t # ts) \<and> (\<forall>j<Suc k. con (stmt ((t # ts) ! j)) = Inr []) \<and>
          con (stmt ((t # ts) ! Suc k)) = Inr res' \<and> res' \<noteq> [] \<and>
          scan con stmt (t # ts) ex = (ex @ map stmt (take (Suc (Suc k)) (t # ts)), Inr (Some res'))"
          by simp
        then show ?thesis by blast
      next
        assume "\<forall>t\<in>set ts. con (stmt t) = Inr []"
          and "scan con stmt ts (ex @ [stmt t]) = ((ex @ [stmt t]) @ map stmt ts, Inr None)"
        with t step show ?thesis by simp
      qed
    qed
  qed
qed

section \<open>The worker\<close>

lemma for_smiles_Cons:
  "for_smiles dest f m tb ((mol_id, smi) # rest) acc ex =
     (case scan dest (statement f m tb (Some 1) smi) thresholds [] of
        (reqs, Inl e) \<Rightarrow> Some (ex @ reqs, Inl e)
      | (reqs, Inr None) \<Rightarrow> Some (ex @ reqs, Inl TypeError)
      | (reqs, Inr (Some [])) \<Rightarrow> Some (ex @ reqs, Inl IndexError)
      | (reqs, Inr (Some ((chembl_smi, chembl_id, sim) # _))) \<Rightarrow>
          for_smiles dest f m tb rest (acc @ [(chembl_smi, chembl_id, sim, mol_id, smi)]) (ex @ reqs))"
  by (simp add: get_similarity_scan)

lemma for_smiles_total: "\<exists>r. for_smiles dest f m tb batch acc ex = Some r"
proof (induction batch arbitrary: acc ex)
  case Nil
  then show ?case by simp
next
  case (Cons q batch)
  obtain mol_id smi where q: "q = (mol_id, smi)" by (cases q)
  show ?case
    unfolding q for_smiles_Cons using Cons.IH
    by (simp split: prod.splits sum.splits option.splits list.splits)
qed

lemma for_smiles_append:
  "for_smiles dest f m tb (xs @ ys) acc ex =
     (case for_smiles dest f m tb xs acc ex of
        Some (reqs, Inr rows) \<Rightarrow> for_smiles dest f m tb ys rows reqs
      | r \<Rightarrow> r)"
proof (induction xs arbitrary: acc ex)
  case Nil
  then show ?case by simp
next
  case (Cons q xs)
  obtain mol_id smi where q: "q = (mol_id, smi)" by (cases q)
  show ?case
    unfolding q append_Cons for_smiles_Cons using Cons.IH
    by (simp split: prod.splits sum.splits option.splits list.splits)
qed

lemma scan_requests:
  "set (fst (scan con stmt ts ex)) \<subseteq> set ex \<union> stmt ` set ts"
proof (induction ts arbitrary: ex)
  case Nil
  then show ?case by simp
next
  case (Cons t ts)
  show ?case
    using Cons.IH [of "ex @ [stmt t]"] by (auto split: sum.splits)
qed

lemma for_smiles_limit:
  "for_smiles dest f m tb batch acc ex = Some (reqs, r) \<Longrightarrow>
   \<forall>req\<in>set reqs. req \<in> set ex \<or> sql_limit req = Some 1"
proof (induction batch arbitrary: acc ex)
  case Nil
  then show ?case by auto
next
  case (Cons q batch)
  obtain mol_id smi where q: "q = (mol_id, smi)" by (cases q)
  obtain l o' where sc: "scan dest (statement f m tb (Some 1) smi) thresholds [] = (l, o')"
    by (cases "scan dest (statement f m tb (Some 1) smi) thresholds []")
  have l: "\<forall>req\<in>set l. sql_limit req = Some 1"
    using scan_requests [of dest "statement f m tb (Some 1) smi" thresholds "[]"] sc
    by (auto simp: statement_def)
  show ?case
  proof (cases "\<exists>cs ci sim rest. o' = Inr (Some ((cs, ci, sim) # rest))")
    case True
    then obtain cs ci sim rest where o': "o' = Inr (Some ((cs, ci, sim) # rest))" by blast
    from Cons.prems have "for_smiles dest f m tb batch (acc @ [(cs, ci, sim, mol_id, smi)]) (ex @ l) = Some (reqs, r)"
      unfolding q for_smiles_Cons sc o' by simp
    from Cons.IH [OF this] l show ?thesis by auto
  next
    case False
    with Cons.prems have "reqs = ex @ l"
      unfolding q for_smiles_Cons sc
      by (auto split: sum.splits option.splits list.splits)
    with l show ?thesis by auto
  qed
qed

lemma list_all_take_nth:
  "k \<le> length ts \<Longrightarrow> list_all P (take k ts) \<longleftrightarrow> (\<forall>j<k. P (ts ! j))"
  by (simp add: list_all_length)

lemma scan_first_match:
  assumes "first_match con stmt k rows"
  shows "scan con stmt thresholds [] = (map stmt (take (Suc k) thresholds), Inr (Some rows))"
proof -
  from assms have k: "k < length thresholds" and a: "con (stmt (thresholds ! k)) = Inr rows" "rows \<noteq> []"
    and "list_all (\<lambda>t. con (stmt t) = Inr []) (take k thresholds)"
    by (simp_all add: first_match_def)
  then have "\<forall>j<k. con (stmt (thresholds ! j)) = Inr []"
    by (simp add: list_all_take_nth)
  from scan_first [OF k this, of "[]"] a show ?thesis by simp
qed

lemma scan_no_match:
  "no_match con stmt \<Longrightarrow> scan con stmt thresholds [] = (map stmt thresholds, Inr None)"
  using scan_all_empty [of thresholds con stmt "[]"] by (simp add: no_match_def list_all_iff)

lemma scan_Some_iff:
  "snd (scan con stmt thresholds []) = Inr (Some rows) \<longleftrightarrow> (\<exists>k. first_match con stmt k rows)"
proof
  assume r: "snd (scan con stmt thresholds []) = Inr (Some rows)"
  from scan_cases [of thresholds con stmt "[]"] r
  obtain k where "k < length thresholds" "\<forall>j<k. con (stmt (thresholds ! j)) = Inr []"
    "con (stmt (thresholds ! k)) = Inr rows" "rows \<noteq> []"
    by auto
  then have "first_match con stmt k rows"
    by (simp add: first_match_def list_all_take_nth)
  then show "\<exists>k. first_match con stmt k rows" ..
next
  assume "\<exists>k. first_match con stmt k rows"
  then show "snd (scan con stmt thresholds []) = Inr (Some rows)"
    by (auto simp: scan_first_match)
qed

lemma scan_None_iff:
  "snd (scan con stmt thresholds []) = Inr None \<longleftrightarrow> no_match con stmt"
proof
  assume "snd (scan con stmt thresholds []) = Inr None"
  with scan_cases [of thresholds con stmt "[]"] show "no_match con stmt"
    by (auto simp: no_match_def list_all_iff)
next
  assume "no_match con stmt"
  then show "snd (scan con stmt thresholds []) = Inr None"
    by (simp add: scan_no_match)
qed

lemma scan_never_empty_rows: "snd (scan con stmt ts ex) \<noteq> Inr (Some [])"
  using scan_cases [of ts con stmt ex] by auto

lemma for_smiles_rows:
  "for_smiles dest f m tb batch acc ex = Some (reqs, Inr rows) \<Longrightarrow>
   reqs = ex @ concat (map (\<lambda>q. fst (scan dest (statement f m tb (Some 1) (snd q)) thresholds [])) batch) \<and>
   (\<exists>ms. rows = acc @ ms \<and> length ms = length batch \<and>
      (\<forall>i<length batch. \<exists>cs ci sim rest.
          snd (scan dest (statement f m tb (Some 1) (snd (batch ! i))) thresholds []) =
            Inr (Some ((cs, ci, sim) # rest)) \<and>
          ms ! i = (cs, ci, sim, fst (batch ! i), snd (batch ! i))))"
proof (induction batch arbitrary: acc ex)
  case Nil
  then show ?case by simp
next
  case (Cons q batch)
  obtain mol_id smi where q: "q = (mol_id, smi)" by (cases q)
  obtain l o' where sc: "scan dest (statement f m tb (Some 1) smi) thresholds [] = (l, o')"
    by (cases "scan dest (statement f m tb (Some 1) smi) thresholds []")
  from Cons.prems obtain cs ci sim rest where o': "o' = Inr (Some ((cs, ci, sim) # rest))"
    unfolding q for_smiles_Cons sc
    by (auto split: sum.splits option.splits list.splits)
  from Cons.prems
  have "for_smiles dest f m tb batch (acc @ [(cs, ci, sim, mol_id, smi)]) (ex @ l) = Some (reqs, Inr rows)"
    unfolding q for_smiles_Cons sc o' by simp
  from Cons.IH [OF this] obtain ms where
    reqs: "reqs = (ex @ l) @ concat (map (\<lambda>q. fst (scan dest (statement f m tb (Some 1) (snd q)) thresholds [])) batch)"
    and rows: "rows = (acc @ [(cs, ci, sim, mol_id, smi)]) @ ms" and len: "length ms = length batch"
    and each: "\<forall>i<length batch. \<exists>cs ci sim rest.
          snd (scan dest (statement f m tb (Some 1) (snd (batch ! i))) thresholds []) =
            Inr (Some ((cs, ci, sim) # rest)) \<and>
          ms ! i = (cs, ci, sim, fst (batch ! i), snd (batch ! i))"
    by blast
  let ?ms = "(cs, ci, sim, mol_id, smi) # ms"
  have "\<forall>i<length (q # batch). \<exists>cs ci sim rest.
          snd (scan dest (statement f m tb (Some 1) (snd ((q # batch) ! i))) thresholds []) =
            Inr (Some ((cs, ci, sim) # rest)) \<and>
          ?ms ! i = (cs, ci, sim, fst ((q # batch) ! i), snd ((q # batch) ! i))"
  proof (intro allI impI)
    fix i assume i: "i < length (q # batch)"
    show "\<exists>cs ci sim rest.
          snd (scan dest (statement f m tb (Some 1) (snd ((q # batch) ! i))) thresholds []) =
            Inr (Some ((cs, ci, sim) # rest)) \<and>
          ?ms ! i = (cs, ci, sim, fst ((q # batch) ! i), snd ((q # batch) ! i))"
    proof (cases i)
      case 0
      then show ?thesis using sc o' q by simp
    next
      case (Suc i')
      with i each show ?thesis by simp
    qed
  qed
  moreover have "rows = acc @ ?ms" using rows by simp
  moreover have "length ?ms = length (q # batch)" using len by simp
  moreover have "reqs = ex @ concat (map (\<lambda>q. fst (scan dest (statement f m tb (Some 1) (snd q)) thresholds [])) (q # batch))"
    using reqs sc q by simp
  ultimately show ?case by blast
qed

lemma for_smiles_succeeds:
  "\<forall>q\<in>set batch. \<exists>r rest. snd (scan dest (statement f m tb (Some 1) (snd q)) thresholds []) = Inr (Some (r # rest)) \<Longrightarrow>
   \<exists>reqs rows. for_smiles dest f m tb batch acc ex = Some (reqs, Inr rows)"
proof (induction batch arbitrary: acc ex)
  case Nil
  then show ?case by simp
next
  case (Cons q batch)
  obtain mol_id smi where q: "q = (mol_id, smi)" by (cases q)
  from Cons.prems q obtain r rest where
    "snd (scan dest (statement f m tb (Some 1) smi) thresholds []) = Inr (Some (r # rest))"
    by auto
  then obtain l cs ci sim where sc:
    "scan dest (statement f m tb (Some 1) smi) thresholds [] = (l, Inr (Some ((cs, ci, sim) # rest)))"
    by (cases "scan dest (statement f m tb (Some 1) smi) thresholds []"; cases r) auto
  from Cons.prems have "\<forall>q\<in>set batch. \<exists>r rest. snd (scan dest (statement f m tb (Some 1) (snd q)) thresholds []) = Inr (Some (r # rest))"
    by simp
  from Cons.IH [OF this] show ?case
    unfolding q for_smiles_Cons sc by simp
qed

lemma for_smiles_fails:
  assumes pre: "for_smiles dest f m tb pre acc ex = Some (reqs, Inr rows)"
    and sc: "scan dest (statement f m tb (Some 1) smi) thresholds [] = (l, r)"
    and r: "\<nexists>row rest. r = Inr (Some (row # rest))"
  shows "for_smiles dest f m tb (pre @ (mol_id, smi) # post) acc ex =
     Some (reqs @ l, Inl (case r of Inl e \<Rightarrow> e | Inr None \<Rightarrow> TypeError | Inr (Some _) \<Rightarrow> IndexError))"
  using r unfolding for_smiles_append pre for_smiles_Cons sc
  by (auto split: sum.splits option.splits list.splits)

section \<open>Chunks\<close>

lemma cpu_type_range: "1 \<le> cpu_type x cpu_count" "cpu_type x cpu_count \<le> max 1 cpu_count"
  by (simp_all add: cpu_type_def)

lemma chunked_Nil: "chunked n [] = []"
  by (simp add: chunked.simps)

lemma chunked_zero: "chunked 0 xs = []"
  by (simp add: chunked.simps)

lemma chunked_step:
  "0 < n \<Longrightarrow> xs \<noteq> [] \<Longrightarrow> chunked n xs = take n xs # chunked n (drop n xs)"
  by (subst chunked.simps) simp

lemma concat_chunked: "0 < n \<Longrightarrow> concat (chunked n xs) = xs"
proof (induction n xs rule: chunked.induct)
  case (1 n xs)
  show ?case
  proof (cases "xs = []")
    case True
    then show ?thesis by (simp add: chunked_Nil)
  next
    case False
    with "1.prems" have "take n xs \<noteq> []" by simp
    from "1.IH" [OF this "1.prems"] show ?thesis
      by (simp add: chunked_step [OF "1.prems" False])
  qed
qed

lemma ceil_div_step: "0 < (L::nat) \<Longrightarrow> 0 < n \<Longrightarrow> (L + n - 1) div n = Suc ((L - 1) div n)"
proof -
  assume "0 < L" "0 < n"
  then have eq: "L + n - 1 = (L - 1) + n" by arith
  show ?thesis
    unfolding eq using div_add_self2 [of n "L - 1"] \<open>0 < n\<close> by simp
qed

lemma ceil_div_drop: "0 < (n::nat) \<Longrightarrow> 0 < L \<Longrightarrow> (L - n + n - 1) div n = (L - 1) div n"
proof (cases "n \<le> L")
  case True
  then show ?thesis by simp
next
  case False
  assume "0 < n" "0 < L"
  with False have "L - n + n - 1 = n - 1" "L - 1 < n" "n - 1 < n"
    by arith+
  then show ?thesis by simp
qed

lemma length_chunked: "0 < n \<Longrightarrow> length (chunked n xs) = (length xs + n - 1) div n"
proof (induction n xs rule: chunked.induct)
  case (1 n xs)
  show ?case
  proof (cases "xs = []")
    case True
    then show ?thesis using "1.prems" by (simp add: chunked_Nil)
  next
    case False
    with "1.prems" have ne: "take n xs \<noteq> []" by simp
    from False have pos: "0 < length xs" by simp
    have "length (chunked n (drop n xs)) = (length xs - n + n - 1) div n"
      using "1.IH" [OF ne "1.prems"] by simp
    then have "length (chunked n (drop n xs)) = (length xs - 1) div n"
      by (simp only: ceil_div_drop [OF "1.prems" pos])
    then show ?thesis
      by (simp only: chunked_step [OF "1.prems" False] ceil_div_step [OF pos "1.prems"] list.size length_Cons)
  qed
qed

lemma nth_chunked:
  "0 < n \<Longrightarrow> i < length (chunked n xs) \<Longrightarrow> chunked n xs ! i = take n (drop (i * n) xs)"
proof (induction n xs arbitrary: i rule: chunked.induct)
  case (1 n xs)
  show ?case
  proof (cases "xs = []")
    case True
    with "1.prems" show ?thesis by (simp add: chunked_Nil)
  next
    case False
    with "1.prems" have ne: "take n xs \<noteq> []" by simp
    note step = chunked_step [OF "1.prems"(1) False]
    show ?thesis
    proof (cases i)
      case 0
      then show ?thesis by (simp add: step)
    next
      case (Suc i')
      with "1.prems" have "i' < length (chunked n (drop n xs))"
        by (simp add: step)
      from "1.IH" [OF ne "1.prems"(1) this] show ?thesis
        by (simp add: step Suc add.commute)
    qed
  qed
qed

lemma chunked_nonempty:
  "c \<in> set (chunked n xs) \<Longrightarrow> c \<noteq> [] \<and> length c \<le> n"
proof (induction n xs rule: chunked.induct)
  case (1 n xs)
  show ?case
  proof (cases "take n xs = []")
    case True
    with "1.prems" show ?thesis by (simp add: chunked.simps [of n xs])
  next
    case False
    with "1.prems" "1.IH" [OF False] show ?thesis
      by (auto simp: chunked.simps [of n xs])
  qed
qed

section \<open>The pool and the dispatcher\<close>

lemma foldl_futures:
  "foldl (\<lambda>futures i. if i < n then futures(i := g i) else futures) fs done_order =
     (\<lambda>i. if i < n \<and> i \<in> set done_order then g i else fs i)"
  by (induction done_order arbitrary: fs) (auto simp: fun_eq_iff)

lemma length_executor_map: "length (executor_map fn xs completion) = length xs"
  by (simp add: executor_map_def)

lemma executor_map_nth:
  "i < length xs \<Longrightarrow>
   executor_map fn xs completion ! i = (if i \<in> set completion then fn (xs ! i) else None)"
  by (simp add: executor_map_def foldl_futures)

lemma executor_map_complete:
  assumes "\<forall>i<length xs. i \<in> set completion"
  shows "executor_map fn xs completion = map fn xs"
  using assms by (intro nth_equalityI) (simp_all add: length_executor_map executor_map_nth)

lemma calc_sim_total: "\<exists>r. calc_sim_for_smiles connect smiles db f m tb = Some r"
  using for_smiles_total by (simp add: calc_sim_for_smiles_def split: sum.splits)

lemma sum_results_Inr:
  "sum_results fs acc = Some (Inr rows) \<longleftrightarrow>
   (\<forall>r\<in>set fs. \<exists>x. r = Some (Inr x)) \<and> rows = acc @ concat (map (\<lambda>r. projr (the r)) fs)"
  by (induction fs acc rule: sum_results.induct) auto

lemma sum_results_prefix:
  assumes "\<forall>r\<in>set pre. \<exists>x. r = Some (Inr x)"
  shows "sum_results (pre @ rest) acc =
           sum_results rest (acc @ concat (map (\<lambda>r. projr (the r)) pre))"
  using assms by (induction pre arbitrary: acc) auto

lemma sum_results_first_exception:
  assumes j: "j < length fs" and raised: "fs ! j = Some (Inl e)"
    and before: "\<forall>i<j. \<exists>x. fs ! i = Some (Inr x)"
  shows "sum_results fs acc = Some (Inl e)"
proof -
  have split: "fs = take j fs @ fs ! j # drop (Suc j) fs"
    using j by (simp add: id_take_nth_drop)
  have "\<forall>r\<in>set (take j fs). \<exists>x. r = Some (Inr x)"
  proof
    fix r assume "r \<in> set (take j fs)"
    then obtain i where "i < length (take j fs)" "r = take j fs ! i"
      by (auto simp: in_set_conv_nth)
    with before show "\<exists>x. r = Some (Inr x)" by simp
  qed
  from sum_results_prefix [OF this, of "fs ! j # drop (Suc j) fs" acc]
  show ?thesis
    by (subst split) (simp add: raised)
qed

text \<open>
  The dispatcher, once the output file and the input file have been opened: the outcome
  of \<^verbatim>\<open>sum\<close> over the futures of the chunks.
\<close>

lemma main_dispatch:
  assumes out: "output_path a = Some path" and csv: "read_csv (input_smiles a) = Inr df"
    and workers: "0 < ncpu a"
  shows "main connect read_csv a completion =
    (case sum_results
            (executor_map
               (\<lambda>c. map_option snd
                  (calc_sim_for_smiles connect c (input_db a) (fp a) (mol_field a) (table a)))
               (chunked (ncpu a) df) completion) [] of
       None \<Rightarrow> None
     | Some (Inl e) \<Rightarrow> Some ([Header], Inl e)
     | Some (Inr rows) \<Rightarrow> Some (Header # map write_row rows, Inr ()))"
  using workers by (simp add: main_def out csv zip_map_fst_snd)

lemma worker_future:
  "map_option snd (calc_sim_for_smiles connect c db f m tb) =
     Some (snd (the (calc_sim_for_smiles connect c db f m tb)))"
  using calc_sim_total [of connect c db f m tb] by auto

lemma main_run:
  assumes out: "output_path a = Some path" and csv: "read_csv (input_smiles a) = Inr df"
    and cover: "\<forall>i<length (chunked (ncpu a) df). i \<in> set completion"
    and workers: "0 < ncpu a"
  shows "main connect read_csv a completion =
    (case sum_results
            (map (\<lambda>c. Some (snd (the (calc_sim_for_smiles connect c (input_db a) (fp a)
                                        (mol_field a) (table a)))))
               (chunked (ncpu a) df)) [] of
       None \<Rightarrow> None
     | Some (Inl e) \<Rightarrow> Some ([Header], Inl e)
     | Some (Inr rows) \<Rightarrow> Some (Header # map write_row rows, Inr ()))"
  unfolding main_dispatch [where read_csv = read_csv and connect = connect, OF out csv workers]
    executor_map_complete [OF cover] worker_future
  by (rule refl)

lemma main_no_workers:
  assumes "output_path a = Some path" and "read_csv (input_smiles a) = Inr df" and "ncpu a = 0"
  shows "main connect read_csv a completion = Some ([], Inl ValueError)"
  using assms by (simp add: main_def)

text \<open>
  A run in which the worker of a chunk raises: the dispatcher waits for the tasks in the
  order of submission, so it takes the exception of the first chunk whose worker raises,
  once the tasks up to that chunk have finished; the tasks after it need not finish.
\<close>

lemma main_first_exception:
  assumes out: "output_path a = Some path" and csv: "read_csv (input_smiles a) = Inr df"
    and j: "j < length (chunked (ncpu a) df)"
    and raised: "calc_sim_for_smiles connect (chunked (ncpu a) df ! j) (input_db a) (fp a)
        (mol_field a) (table a) = Some (reqs, Inl e)"
    and before: "\<forall>i<j. \<exists>reqs' rows.
        calc_sim_for_smiles connect (chunked (ncpu a) df ! i) (input_db a) (fp a)
          (mol_field a) (table a) = Some (reqs', Inr rows)"
    and waited: "\<forall>i\<le>j. i \<in> set completion"
  shows "main connect read_csv a completion = Some ([Header], Inl e)"
proof -
  let ?chunks = "chunked (ncpu a) df"
  let ?fn = "\<lambda>c. map_option snd
      (calc_sim_for_smiles connect c (input_db a) (fp a) (mol_field a) (table a))"
  let ?fs = "executor_map ?fn ?chunks completion"
  have workers: "0 < ncpu a"
    using j by (cases "ncpu a = 0") (simp_all add: chunked_zero)
  have "j < length ?fs"
    using j by (simp add: length_executor_map)
  moreover have "?fs ! j = Some (Inl e)"
    using j raised waited by (simp add: executor_map_nth)
  moreover have "\<forall>i<j. \<exists>x. ?fs ! i = Some (Inr x)"
  proof (intro allI impI)
    fix i assume i: "i < j"
    with before obtain reqs' rows where
      "calc_sim_for_smiles connect (?chunks ! i) (input_db a) (fp a) (mol_field a) (table a) =
         Some (reqs', Inr rows)"
      by blast
    moreover from i j have "i < length ?chunks" by simp
    moreover from i waited have "i \<in> set completion" by simp
    ultimately show "\<exists>x. ?fs ! i = Some (Inr x)"
      by (simp add: executor_map_nth)
  qed
  ultimately have "sum_results ?fs [] = Some (Inl e)"
    by (rule sum_results_first_exception)
  then show ?thesis
    unfolding main_dispatch [where read_csv = read_csv and connect = connect, OF out csv workers] by simp
qed

text \<open>
  The first chunk, in the order of submission, whose worker raises.
\<close>

lemma first_failing_chunk:
  assumes "calc_sim_for_smiles connect (chunks ! i) db f m tb = Some (reqs, Inl e)"
  shows "\<exists>j\<le>i. \<exists>reqs' e'.
           calc_sim_for_smiles connect (chunks ! j) db f m tb = Some (reqs', Inl e') \<and>
           (\<forall>j'<j. \<exists>reqs'' rows.
              calc_sim_for_smiles connect (chunks ! j') db f m tb = Some (reqs'', Inr rows))"
proof -
  let ?worker = "\<lambda>c. calc_sim_for_smiles connect c db f m tb"
  let ?bad = "\<lambda>j. \<exists>reqs' e'. ?worker (chunks ! j) = Some (reqs', Inl e')"
  from assms have "?bad i" by blast
  define j where "j = (LEAST j. ?bad j)"
  from \<open>?bad i\<close> have bad: "?bad j" and le: "j \<le> i"
    unfolding j_def by (rule LeastI, rule Least_le)
  have least: "\<not> ?bad j'" if "j' < j" for j'
    using that not_less_Least unfolding j_def by blast
  have good: "\<exists>reqs'' rows. ?worker (chunks ! j') = Some (reqs'', Inr rows)" if "j' < j" for j'
  proof -
    obtain r where r: "?worker (chunks ! j') = Some r" using calc_sim_total by blast
    obtain l o' where lo: "r = (l, o')" by (cases r)
    from least [OF that] r lo have "\<nexists>e''. o' = Inl e''" by blast
    then obtain rows where "o' = Inr rows" by (cases o') auto
    with r lo show ?thesis by blast
  qed
  from bad good le show ?thesis by blast
qed


section \<open>The partition into chunks\<close>

lemma chunk_full:
  assumes W: "0 < W" and i: "Suc i < length (chunked W xs)"
  shows "length (chunked W xs ! i) = W"
proof -
  from i have K: "Suc i < (length xs + W - 1) div W"
    by (simp add: length_chunked [OF W])
  then have pos: "0 < length xs"
    using W by (cases "length xs = 0") auto
  from K have "Suc i < Suc ((length xs - 1) div W)"
    by (simp only: ceil_div_step [OF pos W])
  then have "Suc i \<le> (length xs - 1) div W" by simp
  then have "Suc i * W \<le> (length xs - 1) div W * W"
    by (rule mult_le_mono1)
  also have "\<dots> \<le> length xs - 1"
    by simp
  finally have "Suc i * W \<le> length xs - 1" .
  moreover from pos have "length xs - 1 < length xs" by arith
  ultimately have "Suc i * W < length xs" by (rule le_less_trans)
  then have "W + i * W < length xs" by simp
  then have "W \<le> length xs - i * W" by arith
  moreover have "chunked W xs ! i = take W (drop (i * W) xs)"
    using i by (simp add: nth_chunked [OF W])
  ultimately show ?thesis by simp
qed

text \<open>
  Claim C5. For every query sequence \<open>xs\<close> and every number of workers \<open>W \<ge> 1\<close>, the
  dispatcher's chunks are consecutive: chunk \<open>i\<close> is the queries at the positions
  \<open>[i * W, (i + 1) * W)\<close>, that is \<open>take W (drop (i * W) xs)\<close>; there are
  \<open>\<lceil>length xs / W\<rceil>\<close> chunks, none is empty, every chunk but the last has exactly \<open>W\<close>
  queries and the last has at most \<open>W\<close>; and the concatenation of the chunks is \<open>xs\<close>, so
  every query is in exactly one chunk, once.
\<close>

theorem chunked_partition:
  assumes "1 \<le> W"
  shows "concat (chunked W xs) = xs \<and>
         length (chunked W xs) = (length xs + W - 1) div W \<and>
         (\<forall>i<length (chunked W xs).
            chunked W xs ! i = take W (drop (i * W) xs) \<and>
            chunked W xs ! i \<noteq> [] \<and> length (chunked W xs ! i) \<le> W \<and>
            (Suc i < length (chunked W xs) \<longrightarrow> length (chunked W xs ! i) = W))"
proof -
  from assms have W: "0 < W" by simp
  have "\<forall>i<length (chunked W xs).
            chunked W xs ! i = take W (drop (i * W) xs) \<and>
            chunked W xs ! i \<noteq> [] \<and> length (chunked W xs ! i) \<le> W \<and>
            (Suc i < length (chunked W xs) \<longrightarrow> length (chunked W xs ! i) = W)"
  proof (intro allI impI conjI)
    fix i assume i: "i < length (chunked W xs)"
    show "chunked W xs ! i = take W (drop (i * W) xs)"
      by (rule nth_chunked [OF W i])
    from i have "chunked W xs ! i \<in> set (chunked W xs)" by simp
    then show "chunked W xs ! i \<noteq> []" "length (chunked W xs ! i) \<le> W"
      using chunked_nonempty by blast+
  next
    fix i assume "Suc i < length (chunked W xs)"
    then show "length (chunked W xs ! i) = W" by (rule chunk_full [OF W])
  qed
  with concat_chunked [OF W] length_chunked [OF W] show ?thesis by blast
qed

theorem chunked_partition_witness:
  "(1::nat) \<le> 2 \<and>
   chunked 2 [(''a'', ''CCO''), (''b'', ''CCN''), (''c'', ''CCC''), (''d'', ''CO''), (''e'', ''CN'')] =
     [[(''a'', ''CCO''), (''b'', ''CCN'')], [(''c'', ''CCC''), (''d'', ''CO'')], [(''e'', ''CN'')]] \<and>
   concat (chunked 2 [(''a'', ''CCO''), (''b'', ''CCN''), (''c'', ''CCC''), (''d'', ''CO''), (''e'', ''CN'')]) =
     [(''a'', ''CCO''), (''b'', ''CCN''), (''c'', ''CCC''), (''d'', ''CO''), (''e'', ''CN'')] \<and>
   length (chunked 2 [(''a'', ''CCO''), (''b'', ''CCN''), (''c'', ''CCC''), (''d'', ''CO''), (''e'', ''CN'')]) = 3"
  using chunked_partition [of 2 "[(''a'', ''CCO''), (''b'', ''CCN''), (''c'', ''CCC''), (''d'', ''CO''), (''e'', ''CN'')]"]
  by (simp add: chunked.simps)

section \<open>The scenario\<close>

lemma example_answers:
  "range_query example_similarities (statement f m tb (Some 1) ''CCO'' (6305039478318694, - 53)) =
     Inr [(''CCO'', ''ref1'', (4503599627370496, - 52))]"
  "range_query example_similarities (statement f m tb (Some 1) ''CCN'' (6305039478318694, - 53)) = Inr []"
  "range_query example_similarities (statement f m tb (Some 1) ''CCN'' (5404319552844595, - 53)) = Inr []"
  "range_query example_similarities (statement f m tb (Some 1) ''CCN'' (4503599627370496, - 53)) =
     Inr [(''CCO'', ''ref1'', (4953959590107546, - 53))]"
  unfolding range_query_def statement_def example_similarities_def float_le_def Let_def
  by simp_all

lemma example_no_answer:
  "t \<in> set thresholds \<Longrightarrow>
   range_query example_similarities (statement f m tb (Some 1) ''XYZ'' t) = Inr []"
  unfolding range_query_def statement_def example_similarities_def float_le_def Let_def thresholds_def
  by auto

text \<open>
  What \<^verbatim>\<open>round(sim, 4)\<close> gives for the similarities of the scenario: \<^verbatim>\<open>1.0\<close> and \<^verbatim>\<open>0.55\<close>
  are unchanged, \<^verbatim>\<open>0.6666666666666666\<close> becomes \<^verbatim>\<open>0.6667\<close>; and two more values, as Python
  computes them: \<^verbatim>\<open>round(1 / 3, 4)\<close> is \<^verbatim>\<open>0.3333\<close>, and the tie \<^verbatim>\<open>round(0.03125, 4)\<close> goes
  to the even neighbour \<^verbatim>\<open>0.0312\<close>.
\<close>

lemma example_rounded:
  "py_round (4503599627370496, - 52) 4 = (4503599627370496, - 52)"
  "py_round (4953959590107546, - 53) 4 = (4953959590107546, - 53)"
  "py_round (6004799503160661, - 53) 4 = (6005099743135819, - 53)"
  "py_round (6004799503160661, - 54) 4 = (6004199023210345, - 54)"
  "py_round (4503599627370496, - 57) 4 = (8992787735933406, - 58)"
  unfolding py_round_def float_of_ratio_def round_ratio_def Let_def
  by (simp_all add: bit_length.simps)

lemma example_scan_CCO:
  "scan (range_query example_similarities) (statement f m tb (Some 1) ''CCO'') thresholds [] =
     ([statement f m tb (Some 1) ''CCO'' (6305039478318694, - 53)],
      Inr (Some [(''CCO'', ''ref1'', (4503599627370496, - 52))]))"
  by (simp add: thresholds_def example_answers)

lemma example_scan_CCN:
  "scan (range_query example_similarities) (statement f m tb (Some 1) ''CCN'') thresholds [] =
     ([statement f m tb (Some 1) ''CCN'' (6305039478318694, - 53),
       statement f m tb (Some 1) ''CCN'' (5404319552844595, - 53),
       statement f m tb (Some 1) ''CCN'' (4503599627370496, - 53)],
      Inr (Some [(''CCO'', ''ref1'', (4953959590107546, - 53))]))"
  by (simp add: thresholds_def example_answers)

lemma example_scan_XYZ:
  "scan (range_query example_similarities) (statement f m tb (Some 1) ''XYZ'') thresholds [] =
     (map (statement f m tb (Some 1) ''XYZ'') thresholds, Inr None)"
  by (rule scan_all_empty [of _ _ _ "[]", simplified]) (simp add: example_no_answer)

section \<open>The adaptive search\<close>

lemma first_matchI:
  "k < length thresholds \<Longrightarrow> \<forall>j<k. con (stmt (thresholds ! j)) = Inr [] \<Longrightarrow>
   con (stmt (thresholds ! k)) = Inr rows \<Longrightarrow> rows \<noteq> [] \<Longrightarrow> first_match con stmt k rows"
  by (simp add: first_match_def list_all_take_nth)

text \<open>
  The search over the thresholds that the loop computes. For every connection, statement
  and query: if the query is answered at each of the eight thresholds of the loop
  (\<^verbatim>\<open>0.7\<close>, \<^verbatim>\<open>0.6\<close>, \<^verbatim>\<open>0.5\<close>, ... down to \<open>2 ^ - 55\<close>) without an exception, and some
  threshold gives rows, then \<^verbatim>\<open>get_similarity\<close> returns, and what it returns is the rows
  of the highest of these thresholds that gives any: the queries at the thresholds above
  it returned the empty list, the loop executed one request for each threshold down to
  it and none below it. An instance is the scenario of a best match of similarity
  \<^verbatim>\<open>0.55\<close>: the requests at \<^verbatim>\<open>0.7\<close> and \<^verbatim>\<open>0.6\<close> return nothing, the request at \<^verbatim>\<open>0.5\<close>
  returns the row.
\<close>

lemma adaptive_search_highest_band:
  assumes answers: "\<forall>t\<in>set thresholds. \<exists>rows. con (statement f m tb lm q t) = Inr rows"
    and some: "\<exists>t\<in>set thresholds. con (statement f m tb lm q t) \<noteq> Inr []"
  shows "\<exists>k rows. first_match con (statement f m tb lm q) k rows \<and>
           get_similarity con f m tb q lm =
             Some (map (statement f m tb lm q) (take (Suc k) thresholds), Inr (Some rows))"
proof -
  let ?stmt = "statement f m tb lm q"
  from scan_cases [of thresholds con ?stmt "[]"]
  consider
    (error) k e where "k < length thresholds" "con (?stmt (thresholds ! k)) = Inl e"
  | (found) k rows where "k < length thresholds" "\<forall>j<k. con (?stmt (thresholds ! j)) = Inr []"
      "con (?stmt (thresholds ! k)) = Inr rows" "rows \<noteq> []"
      "scan con ?stmt thresholds [] = (map ?stmt (take (Suc k) thresholds), Inr (Some rows))"
  | (none) "\<forall>t\<in>set thresholds. con (?stmt t) = Inr []"
    by auto
  then show ?thesis
  proof cases
    case error
    with answers show ?thesis
      by (metis nth_mem sum.distinct(1))
  next
    case found
    then have "first_match con ?stmt k rows"
      by (intro first_matchI)
    with found(5) show ?thesis
      by (auto simp: get_similarity_scan)
  next
    case none
    with some show ?thesis by blast
  qed
qed

lemma adaptive_search_0_55_scenario:
  "get_similarity (range_query example_similarities) ''morgan'' ''mol'' ''mols'' ''CCN'' (Some 1) =
     Some ([statement ''morgan'' ''mol'' ''mols'' (Some 1) ''CCN'' (6305039478318694, - 53),
            statement ''morgan'' ''mol'' ''mols'' (Some 1) ''CCN'' (5404319552844595, - 53),
            statement ''morgan'' ''mol'' ''mols'' (Some 1) ''CCN'' (4503599627370496, - 53)],
           Inr (Some [(''CCO'', ''ref1'', (4953959590107546, - 53))])) \<and>
   first_match (range_query example_similarities)
     (statement ''morgan'' ''mol'' ''mols'' (Some 1) ''CCN'') 2
     [(''CCO'', ''ref1'', (4953959590107546, - 53))]"
proof -
  let ?con = "range_query example_similarities"
  let ?stmt = "statement ''morgan'' ''mol'' ''mols'' (Some 1) ''CCN''"
  have answers: "\<forall>t\<in>set thresholds. \<exists>rows. ?con (?stmt t) = Inr rows"
    by (simp add: range_query_def)
  have some: "\<exists>t\<in>set thresholds. ?con (?stmt t) \<noteq> Inr []"
    by (simp add: thresholds_def example_answers)
  from adaptive_search_highest_band [OF answers some]
  have found: "\<exists>k rows. first_match ?con ?stmt k rows \<and>
      get_similarity ?con ''morgan'' ''mol'' ''mols'' ''CCN'' (Some 1) =
        Some (map ?stmt (take (Suc k) thresholds), Inr (Some rows))" .
  have run: "get_similarity ?con ''morgan'' ''mol'' ''mols'' ''CCN'' (Some 1) =
     Some ([?stmt (6305039478318694, - 53), ?stmt (5404319552844595, - 53),
            ?stmt (4503599627370496, - 53)],
           Inr (Some [(''CCO'', ''ref1'', (4953959590107546, - 53))]))"
    by (simp only: get_similarity_scan example_scan_CCN)
  have band: "first_match ?con ?stmt 2 [(''CCO'', ''ref1'', (4953959590107546, - 53))]"
    by (simp add: first_match_def thresholds_def example_answers)
  from found run band show ?thesis by simp
qed

lemma sort_key_nonempty: "xs \<noteq> [] \<Longrightarrow> sort_key k xs \<noteq> []"
proof -
  assume "xs \<noteq> []"
  moreover have "length (sort_key k xs) = length xs" by simp
  ultimately show ?thesis by (cases "sort_key k xs") auto
qed

lemma hd_sort_key_least:
  assumes "xs \<noteq> []"
  shows "hd (sort_key k xs) \<in> set xs \<and> (\<forall>x\<in>set xs. k (hd (sort_key k xs)) \<le> k x)"
proof -
  let ?ys = "sort_key k xs"
  have len: "length ?ys = length xs" by simp
  with assms have "?ys \<noteq> []" by (cases ?ys) auto
  then obtain y ys where ys: "?ys = y # ys" by (cases ?ys) auto
  have "sorted (map k ?ys)" by (rule sorted_sort_key)
  then have "sorted (map k (y # ys))" by (simp only: ys)
  then have least: "\<forall>x\<in>set ys. k y \<le> k x" by simp
  have "set (y # ys) = set xs" by (simp only: ys [symmetric] set_sort)
  then have "y \<in> set xs" and "\<forall>x\<in>set xs. k y \<le> k x"
    using least by auto
  then show ?thesis by (simp only: ys list.sel simp_thms)
qed

lemma range_query_limit_one:
  "range_query similarities (statement f m tb (Some 1) q t) =
     Inr (take 1 (sort_key (\<lambda>(smi, ident, u). - float_val u)
        (filter (\<lambda>(smi, ident, u). float_le t u) (similarities q))))"
  by (simp add: range_query_def statement_def)

text \<open>
  The same scenario for every reference table, under the model of the engine: when the
  best similarity to the query in the table is \<^verbatim>\<open>0.55\<close>, the search executes the requests
  at \<^verbatim>\<open>0.7\<close>, \<^verbatim>\<open>0.6\<close> and \<^verbatim>\<open>0.5\<close> and returns one row of the table, of similarity \<^verbatim>\<open>0.55\<close>.
\<close>

lemma adaptive_search_best_0_55:
  assumes best: "(smi, ident, t) \<in> set (similarities q)"
      "float_val t = float_val (4953959590107546, - 53)"
    and le: "\<forall>(s, i, u)\<in>set (similarities q). float_val u \<le> float_val (4953959590107546, - 53)"
  shows "\<exists>s i u. get_similarity (range_query similarities) f m tb q (Some 1) =
           Some ([statement f m tb (Some 1) q (6305039478318694, - 53),
                  statement f m tb (Some 1) q (5404319552844595, - 53),
                  statement f m tb (Some 1) q (4503599627370496, - 53)],
                 Inr (Some [(s, i, u)])) \<and>
         (s, i, u) \<in> set (similarities q) \<and> float_val u = float_val (4953959590107546, - 53)"
proof -
  let ?con = "range_query similarities"
  let ?stmt = "statement f m tb (Some 1) q"
  let ?key = "\<lambda>(smi :: string, ident :: string, u). - float_val u"
  let ?best = "float_val (4953959590107546, - 53)"
  have v55: "?best = 2476979795053773 / 4503599627370496"
    by (simp add: float_val_def)
  have above: "filter (\<lambda>(smi, ident, u). float_le th u) (similarities q) = []"
    if "?best < float_val th" for th
  proof -
    have "\<not> float_le th u" if "(s, i, u) \<in> set (similarities q)" for s i u
    proof -
      from le that have "float_val u \<le> ?best" by blast
      with \<open>?best < float_val th\<close> show ?thesis
        by (simp add: float_le_iff)
    qed
    then show ?thesis by (auto simp: filter_empty_conv)
  qed
  have "?best < float_val (6305039478318694, - 53)" "?best < float_val (5404319552844595, - 53)"
    by (simp_all add: float_val_def)
  then have e0: "?con (?stmt (6305039478318694, - 53)) = Inr []"
    and e1: "?con (?stmt (5404319552844595, - 53)) = Inr []"
    by (simp_all only: range_query_limit_one above sort_key_simps take.simps)
  let ?xs = "filter (\<lambda>(smi, ident, u). float_le (4503599627370496, - 53) u) (similarities q)"
  have "float_val (4503599627370496, - 53) \<le> ?best"
    by (simp add: float_val_def)
  with best have inx: "(smi, ident, t) \<in> set ?xs"
    by (simp add: float_le_iff)
  then have ne: "?xs \<noteq> []" by (metis empty_iff list.set(1))
  obtain s i u where h: "hd (sort_key ?key ?xs) = (s, i, u)"
    by (cases "hd (sort_key ?key ?xs)")
  from hd_sort_key_least [OF ne, of ?key]
  have mem: "(s, i, u) \<in> set ?xs" and least: "\<forall>x\<in>set ?xs. ?key (s, i, u) \<le> ?key x"
    unfolding h by blast+
  from mem have mem': "(s, i, u) \<in> set (similarities q)" by simp
  from least inx have "?key (s, i, u) \<le> ?key (smi, ident, t)" by blast
  then have "float_val t \<le> float_val u" by simp
  then have lower: "?best \<le> float_val u" by (simp only: best(2))
  from le mem' have "float_val u \<le> ?best" by blast
  then have val: "float_val u = ?best" using lower by (rule antisym)
  have "sort_key ?key ?xs \<noteq> []"
    using ne by (rule sort_key_nonempty)
  then have "take 1 (sort_key ?key ?xs) = [(s, i, u)]"
    using h by (cases "sort_key ?key ?xs") simp_all
  then have e2: "?con (?stmt (4503599627370496, - 53)) = Inr [(s, i, u)]"
    by (simp only: range_query_limit_one)
  have fm: "first_match ?con ?stmt 2 [(s, i, u)]"
    by (simp add: first_match_def thresholds_def e0 e1 e2)
  have "map ?stmt (take (Suc 2) thresholds) =
      [?stmt (6305039478318694, - 53), ?stmt (5404319552844595, - 53),
       ?stmt (4503599627370496, - 53)]"
    by (simp add: thresholds_def)
  then have "get_similarity ?con f m tb q (Some 1) =
      Some ([?stmt (6305039478318694, - 53), ?stmt (5404319552844595, - 53),
             ?stmt (4503599627370496, - 53)], Inr (Some [(s, i, u)]))"
    by (simp only: get_similarity_scan scan_first_match [OF fm])
  with mem' val show ?thesis by blast
qed

lemma example_scan_CC:
  "scan (range_query example_similarities) (statement f m tb (Some 1) ''CC'') thresholds [] =
     ([statement f m tb (Some 1) ''CC'' (6305039478318694, - 53),
       statement f m tb (Some 1) ''CC'' (5404319552844595, - 53),
       statement f m tb (Some 1) ''CC'' (4503599627370496, - 53),
       statement f m tb (Some 1) ''CC'' (7205759403792794, - 54),
       statement f m tb (Some 1) ''CC'' (5404319552844596, - 54),
       statement f m tb (Some 1) ''CC'' (7205759403792795, - 55)],
      Inr (Some [(''CCO'', ''ref1'', (5404319552844595, - 54))]))"
  unfolding thresholds_def range_query_def statement_def example_similarities_def float_le_def
    Let_def
  by simp

lemma example_bands:
  "range_query example_similarities (statement f m tb (Some 1) ''XYZ'' (0, - 1074)) =
     Inr [(''CCO'', ''ref1'', (0, - 1074))]"
  "range_query example_similarities (statement f m tb (Some 1) ''CC'' (5404319552844595, - 54)) =
     Inr [(''CCO'', ''ref1'', (5404319552844595, - 54))]"
  "range_query example_similarities (statement f m tb (Some 1) ''CC'' (5404319552844596, - 54)) =
     Inr []"
  unfolding range_query_def statement_def example_similarities_def float_le_def Let_def
  by simp_all

text \<open>
  Claim C2 does not hold of the code on every reference collection. The bands of the
  claim are \<^verbatim>\<open>0.7\<close>, \<^verbatim>\<open>0.6\<close>, \<^verbatim>\<open>0.5\<close>, ... down to the threshold \<^verbatim>\<open>0.0\<close>; the loop subtracts
  the float \<^verbatim>\<open>0.1\<close> repeatedly, and the thresholds it computes drift from them. For the
  query \<^verbatim>\<open>XYZ\<close>, whose best similarity is \<^verbatim>\<open>0.0\<close>, a match exists at the threshold \<^verbatim>\<open>0.0\<close>
  (the engine answers a request at \<^verbatim>\<open>0.0\<close> with the row), but \<^verbatim>\<open>0.0\<close> is not among the
  thresholds of the loop, whose last is \<open>2 ^ - 55\<close>: \<^verbatim>\<open>get_similarity\<close> executes its eight
  requests and returns \<^verbatim>\<open>None\<close>. For the query \<^verbatim>\<open>CC\<close>, whose best similarity is \<^verbatim>\<open>0.3\<close>, a
  match exists in the band \<^verbatim>\<open>0.3\<close> (the engine answers a request at \<^verbatim>\<open>0.3\<close> with the row),
  but the loop makes the request of that band at \<^verbatim>\<open>0.30000000000000004\<close>, which returns
  nothing: the row is returned one band lower, by a sixth request at
  \<^verbatim>\<open>0.20000000000000004\<close>.
\<close>

theorem adaptive_search_float_drift:
  "range_query example_similarities
     (statement ''morgan'' ''mol'' ''mols'' (Some 1) ''XYZ'' (0, - 1074)) =
     Inr [(''CCO'', ''ref1'', (0, - 1074))] \<and>
   (0, - 1074) \<notin> set thresholds \<and>
   get_similarity (range_query example_similarities) ''morgan'' ''mol'' ''mols'' ''XYZ'' (Some 1) =
     Some (map (statement ''morgan'' ''mol'' ''mols'' (Some 1) ''XYZ'') thresholds, Inr None) \<and>
   range_query example_similarities
     (statement ''morgan'' ''mol'' ''mols'' (Some 1) ''CC'' (5404319552844595, - 54)) =
     Inr [(''CCO'', ''ref1'', (5404319552844595, - 54))] \<and>
   range_query example_similarities
     (statement ''morgan'' ''mol'' ''mols'' (Some 1) ''CC'' (5404319552844596, - 54)) = Inr [] \<and>
   get_similarity (range_query example_similarities) ''morgan'' ''mol'' ''mols'' ''CC'' (Some 1) =
     Some ([statement ''morgan'' ''mol'' ''mols'' (Some 1) ''CC'' (6305039478318694, - 53),
            statement ''morgan'' ''mol'' ''mols'' (Some 1) ''CC'' (5404319552844595, - 53),
            statement ''morgan'' ''mol'' ''mols'' (Some 1) ''CC'' (4503599627370496, - 53),
            statement ''morgan'' ''mol'' ''mols'' (Some 1) ''CC'' (7205759403792794, - 54),
            statement ''morgan'' ''mol'' ''mols'' (Some 1) ''CC'' (5404319552844596, - 54),
            statement ''morgan'' ''mol'' ''mols'' (Some 1) ''CC'' (7205759403792795, - 55)],
           Inr (Some [(''CCO'', ''ref1'', (5404319552844595, - 54))]))"
proof -
  have "(0, - 1074) \<notin> set thresholds"
    by (simp add: thresholds_def)
  moreover have "get_similarity (range_query example_similarities) ''morgan'' ''mol'' ''mols''
      ''XYZ'' (Some 1) =
      Some (map (statement ''morgan'' ''mol'' ''mols'' (Some 1) ''XYZ'') thresholds, Inr None)"
    by (simp only: get_similarity_scan example_scan_XYZ)
  moreover have "get_similarity (range_query example_similarities) ''morgan'' ''mol'' ''mols''
      ''CC'' (Some 1) =
      Some ([statement ''morgan'' ''mol'' ''mols'' (Some 1) ''CC'' (6305039478318694, - 53),
             statement ''morgan'' ''mol'' ''mols'' (Some 1) ''CC'' (5404319552844595, - 53),
             statement ''morgan'' ''mol'' ''mols'' (Some 1) ''CC'' (4503599627370496, - 53),
             statement ''morgan'' ''mol'' ''mols'' (Some 1) ''CC'' (7205759403792794, - 54),
             statement ''morgan'' ''mol'' ''mols'' (Some 1) ''CC'' (5404319552844596, - 54),
             statement ''morgan'' ''mol'' ''mols'' (Some 1) ''CC'' (7205759403792795, - 55)],
            Inr (Some [(''CCO'', ''ref1'', (5404319552844595, - 54))]))"
    by (simp only: get_similarity_scan example_scan_CC)
  ultimately show ?thesis
    using example_bands [of "''morgan''" "''mol''" "''mols''"] by blast
qed

section \<open>A query without a match\<close>

lemma calc_sim_connected:
  "connect db = Inr dest \<Longrightarrow>
   calc_sim_for_smiles connect batch db f m tb = for_smiles dest f m tb batch [] []"
  by (simp add: calc_sim_for_smiles_def)

lemma scan_match_iff:
  "(\<exists>r rest. snd (scan con stmt thresholds []) = Inr (Some (r # rest))) \<longleftrightarrow>
   (\<exists>k rows. first_match con stmt k rows)"
proof
  assume "\<exists>r rest. snd (scan con stmt thresholds []) = Inr (Some (r # rest))"
  then show "\<exists>k rows. first_match con stmt k rows"
    using scan_Some_iff by blast
next
  assume "\<exists>k rows. first_match con stmt k rows"
  then obtain k rows where fm: "first_match con stmt k rows" by blast
  then have "rows \<noteq> []" by (simp add: first_match_def)
  then obtain r rest where "rows = r # rest" by (cases rows) auto
  with fm show "\<exists>r rest. snd (scan con stmt thresholds []) = Inr (Some (r # rest))"
    using scan_Some_iff by blast
qed

text \<open>
  Claim C1, as stated, fails: the worker does not drop a query without a match. In the
  scenario, the batch is \<^verbatim>\<open>q2\<close> (no row at any threshold) followed by \<^verbatim>\<open>q1\<close> (which has
  a match): the worker raises \<^verbatim>\<open>TypeError\<close> after the eight requests for \<^verbatim>\<open>q2\<close>, the
  query \<^verbatim>\<open>q1\<close> is never sent to the database and no row is returned.
\<close>

theorem no_match_raises_counterexample:
  "calc_sim_for_smiles example_connect [(''q2'', ''XYZ''), (''q1'', ''CCO'')]
     ''chembl.db'' ''morgan'' ''mol'' ''mols'' =
   Some (map (statement ''morgan'' ''mol'' ''mols'' (Some 1) ''XYZ'') thresholds, Inl TypeError)"
  by (simp add: calc_sim_for_smiles_def example_connect_def get_similarity_scan example_scan_XYZ)

text \<open>
  Claim C1, amended. For every query that exhausts the backoff (the database returns
  the empty list at each of the eight thresholds), \<^verbatim>\<open>get_similarity\<close> executes the eight
  requests and returns \<^verbatim>\<open>None\<close>; the worker then raises \<^verbatim>\<open>TypeError\<close> at \<^verbatim>\<open>res[0]\<close>: when
  the queries before it in the batch all found a match, the worker's outcome is that
  \<^verbatim>\<open>TypeError\<close>, it returns no rows, and the queries after it are not processed.
\<close>

theorem no_match_raises:
  assumes conn: "connect db = Inr dest"
    and before: "\<forall>q\<in>set pre. \<exists>k rows. first_match dest (statement f m tb (Some 1) (snd q)) k rows"
    and none: "no_match dest (statement f m tb (Some 1) smi)"
  shows "get_similarity dest f m tb smi (Some 1) =
           Some (map (statement f m tb (Some 1) smi) thresholds, Inr None) \<and>
         (\<exists>reqs. calc_sim_for_smiles connect (pre @ (mol_id, smi) # post) db f m tb =
           Some (reqs @ map (statement f m tb (Some 1) smi) thresholds, Inl TypeError))"
proof -
  from before have "\<forall>q\<in>set pre. \<exists>r rest.
      snd (scan dest (statement f m tb (Some 1) (snd q)) thresholds []) = Inr (Some (r # rest))"
    using scan_match_iff by blast
  from for_smiles_succeeds [OF this]
  obtain reqs rows where pre: "for_smiles dest f m tb pre [] [] = Some (reqs, Inr rows)"
    by blast
  note sc = scan_no_match [OF none]
  have "for_smiles dest f m tb (pre @ (mol_id, smi) # post) [] [] =
      Some (reqs @ map (statement f m tb (Some 1) smi) thresholds, Inl TypeError)"
    using for_smiles_fails [OF pre sc, of mol_id post] by simp
  then show ?thesis
    using conn by (auto simp: calc_sim_for_smiles_def get_similarity_scan sc)
qed

theorem no_match_raises_witness:
  "get_similarity (range_query example_similarities) ''morgan'' ''mol'' ''mols'' ''XYZ'' (Some 1) =
     Some (map (statement ''morgan'' ''mol'' ''mols'' (Some 1) ''XYZ'') thresholds, Inr None) \<and>
   calc_sim_for_smiles example_connect [(''q1'', ''CCO''), (''q2'', ''XYZ''), (''q3'', ''CCN'')]
     ''chembl.db'' ''morgan'' ''mol'' ''mols'' =
   Some (statement ''morgan'' ''mol'' ''mols'' (Some 1) ''CCO'' (6305039478318694, - 53) #
         map (statement ''morgan'' ''mol'' ''mols'' (Some 1) ''XYZ'') thresholds, Inl TypeError)"
proof -
  let ?dest = "range_query example_similarities"
  have conn: "example_connect ''chembl.db'' = Inr ?dest"
    by (simp add: example_connect_def)
  have "first_match ?dest (statement ''morgan'' ''mol'' ''mols'' (Some 1) ''CCO'') 0
      [(''CCO'', ''ref1'', (4503599627370496, - 52))]"
    by (simp add: first_match_def thresholds_def example_answers)
  then have before: "\<forall>q\<in>set [(''q1'', ''CCO'')].
      \<exists>k rows. first_match ?dest (statement ''morgan'' ''mol'' ''mols'' (Some 1) (snd q)) k rows"
    by auto
  have none: "no_match ?dest (statement ''morgan'' ''mol'' ''mols'' (Some 1) ''XYZ'')"
    by (simp add: no_match_def list_all_iff example_no_answer)
  from no_match_raises [of example_connect "''chembl.db''" ?dest "[(''q1'', ''CCO'')]"
      "''morgan''" "''mol''" "''mols''" "''XYZ''" "''q2''" "[(''q3'', ''CCN'')]",
      OF conn before none]
  show ?thesis
    by (simp add: calc_sim_for_smiles_def example_connect_def get_similarity_scan
        example_scan_XYZ example_scan_CCO)
qed

section \<open>The worker's rows\<close>

lemma example_worker:
  "calc_sim_for_smiles example_connect [(''q1'', ''CCO''), (''q3'', ''CCN'')]
     ''chembl.db'' ''morgan'' ''mol'' ''mols'' =
   Some ([statement ''morgan'' ''mol'' ''mols'' (Some 1) ''CCO'' (6305039478318694, - 53),
          statement ''morgan'' ''mol'' ''mols'' (Some 1) ''CCN'' (6305039478318694, - 53),
          statement ''morgan'' ''mol'' ''mols'' (Some 1) ''CCN'' (5404319552844595, - 53),
          statement ''morgan'' ''mol'' ''mols'' (Some 1) ''CCN'' (4503599627370496, - 53)],
         Inr [(''CCO'', ''ref1'', (4503599627370496, - 52), ''q1'', ''CCO''),
              (''CCO'', ''ref1'', (4953959590107546, - 53), ''q3'', ''CCN'')])"
  by (simp add: calc_sim_for_smiles_def example_connect_def get_similarity_scan
      example_scan_CCO example_scan_CCN)

text \<open>
  Claim C10. With the database open, the worker returns rows (no exception) if and only
  if every query of the batch finds a match: for each query some threshold of the loop
  gives rows and the thresholds above it give the empty list. Under that precondition
  the worker returns one row for each query. In the model the worker always ends (its
  value is never \<open>None\<close>).
\<close>

theorem worker_returns_iff_all_match:
  assumes conn: "connect db = Inr dest"
  shows "(\<exists>r. calc_sim_for_smiles connect batch db f m tb = Some r) \<and>
         ((\<exists>reqs rows. calc_sim_for_smiles connect batch db f m tb = Some (reqs, Inr rows)) \<longleftrightarrow>
          (\<forall>q\<in>set batch. \<exists>k rows. first_match dest (statement f m tb (Some 1) (snd q)) k rows)) \<and>
         (\<forall>reqs rows. calc_sim_for_smiles connect batch db f m tb = Some (reqs, Inr rows) \<longrightarrow>
            length rows = length batch)"
proof -
  have eq: "calc_sim_for_smiles connect batch db f m tb = for_smiles dest f m tb batch [] []"
    using conn by (simp add: calc_sim_for_smiles_def)
  have total: "\<exists>r. for_smiles dest f m tb batch [] [] = Some r"
    by (rule for_smiles_total)
  have iff: "(\<exists>reqs rows. for_smiles dest f m tb batch [] [] = Some (reqs, Inr rows)) \<longleftrightarrow>
          (\<forall>q\<in>set batch. \<exists>k rows. first_match dest (statement f m tb (Some 1) (snd q)) k rows)"
  proof
    assume "\<exists>reqs rows. for_smiles dest f m tb batch [] [] = Some (reqs, Inr rows)"
    then obtain reqs rows where "for_smiles dest f m tb batch [] [] = Some (reqs, Inr rows)"
      by blast
    from for_smiles_rows [OF this]
    have each: "\<forall>i<length batch. \<exists>cs ci sim rest.
        snd (scan dest (statement f m tb (Some 1) (snd (batch ! i))) thresholds []) =
          Inr (Some ((cs, ci, sim) # rest))"
      by blast
    show "\<forall>q\<in>set batch. \<exists>k rows. first_match dest (statement f m tb (Some 1) (snd q)) k rows"
    proof
      fix q assume "q \<in> set batch"
      then obtain i where "i < length batch" "q = batch ! i"
        by (auto simp: in_set_conv_nth)
      with each obtain r rest where
        "snd (scan dest (statement f m tb (Some 1) (snd q)) thresholds []) = Inr (Some (r # rest))"
        by blast
      then show "\<exists>k rows. first_match dest (statement f m tb (Some 1) (snd q)) k rows"
        using scan_match_iff by blast
    qed
  next
    assume "\<forall>q\<in>set batch. \<exists>k rows. first_match dest (statement f m tb (Some 1) (snd q)) k rows"
    then have "\<forall>q\<in>set batch. \<exists>r rest.
        snd (scan dest (statement f m tb (Some 1) (snd q)) thresholds []) = Inr (Some (r # rest))"
      using scan_match_iff by blast
    then show "\<exists>reqs rows. for_smiles dest f m tb batch [] [] = Some (reqs, Inr rows)"
      by (rule for_smiles_succeeds)
  qed
  have len: "\<forall>reqs rows. for_smiles dest f m tb batch [] [] = Some (reqs, Inr rows) \<longrightarrow>
            length rows = length batch"
    using for_smiles_rows by fastforce
  from total iff len show ?thesis
    unfolding eq by blast
qed

theorem worker_returns_iff_all_match_witness:
  "example_connect ''chembl.db'' = Inr (range_query example_similarities) \<and>
   first_match (range_query example_similarities)
     (statement ''morgan'' ''mol'' ''mols'' (Some 1) ''CCO'') 0
     [(''CCO'', ''ref1'', (4503599627370496, - 52))] \<and>
   first_match (range_query example_similarities)
     (statement ''morgan'' ''mol'' ''mols'' (Some 1) ''CCN'') 2
     [(''CCO'', ''ref1'', (4953959590107546, - 53))] \<and>
   (\<exists>reqs rows. calc_sim_for_smiles example_connect [(''q1'', ''CCO''), (''q3'', ''CCN'')]
      ''chembl.db'' ''morgan'' ''mol'' ''mols'' = Some (reqs, Inr rows) \<and> length rows = 2)"
proof -
  let ?dest = "range_query example_similarities"
  have conn: "example_connect ''chembl.db'' = Inr ?dest"
    by (simp add: example_connect_def)
  have a: "first_match ?dest (statement ''morgan'' ''mol'' ''mols'' (Some 1) ''CCO'') 0
      [(''CCO'', ''ref1'', (4503599627370496, - 52))]"
    by (simp add: first_match_def thresholds_def example_answers)
  have b: "first_match ?dest (statement ''morgan'' ''mol'' ''mols'' (Some 1) ''CCN'') 2
      [(''CCO'', ''ref1'', (4953959590107546, - 53))]"
    by (simp add: first_match_def thresholds_def example_answers)
  from a b have all: "\<forall>q\<in>set [(''q1'', ''CCO''), (''q3'', ''CCN'')].
      \<exists>k rows. first_match ?dest (statement ''morgan'' ''mol'' ''mols'' (Some 1) (snd q)) k rows"
    by auto
  from worker_returns_iff_all_match [of example_connect "''chembl.db''" ?dest
      "[(''q1'', ''CCO''), (''q3'', ''CCN'')]" "''morgan''" "''mol''" "''mols''", OF conn] all
  have "\<exists>reqs rows. calc_sim_for_smiles example_connect [(''q1'', ''CCO''), (''q3'', ''CCN'')]
      ''chembl.db'' ''morgan'' ''mol'' ''mols'' = Some (reqs, Inr rows) \<and> length rows = 2"
    by fastforce
  with conn a b show ?thesis by blast
qed

lemma for_smiles_stops:
  assumes pre: "\<forall>q\<in>set pre. \<exists>r rest.
      snd (scan dest (statement f m tb (Some 1) (snd q)) thresholds []) = Inr (Some (r # rest))"
    and bad: "\<nexists>r rest.
      snd (scan dest (statement f m tb (Some 1) smi) thresholds []) = Inr (Some (r # rest))"
  shows "\<exists>e. for_smiles dest f m tb (pre @ (mol_id, smi) # post) [] [] =
     Some (concat (map (\<lambda>q. fst (scan dest (statement f m tb (Some 1) (snd q)) thresholds []))
                    (pre @ [(mol_id, smi)])), Inl e)"
proof -
  from for_smiles_succeeds [OF pre]
  obtain reqs rows where run: "for_smiles dest f m tb pre [] [] = Some (reqs, Inr rows)"
    by blast
  from for_smiles_rows [OF run]
  have reqs: "reqs = concat (map (\<lambda>q. fst (scan dest (statement f m tb (Some 1) (snd q)) thresholds [])) pre)"
    by simp
  obtain l r where sc: "scan dest (statement f m tb (Some 1) smi) thresholds [] = (l, r)"
    by (cases "scan dest (statement f m tb (Some 1) smi) thresholds []")
  with bad have "\<nexists>row rest. r = Inr (Some (row # rest))"
    by simp
  from for_smiles_fails [OF run sc this, of mol_id post]
  show ?thesis
    by (simp add: reqs sc)
qed

lemma result_of_iff:
  "result_of connect db f m tb q row \<longleftrightarrow>
   (\<exists>dest cs ci sim rest. connect db = Inr dest \<and>
      snd (scan dest (statement f m tb (Some 1) (snd q)) thresholds []) = Inr (Some ((cs, ci, sim) # rest)) \<and>
      row = (cs, ci, sim, fst q, snd q))"
  unfolding result_of_def get_similarity_scan
  by (cases "scan (projr (connect db)) (statement f m tb (Some 1) (snd q)) thresholds []")
    (auto split: sum.splits option.splits list.splits)

lemma result_of_scan:
  assumes "connect db = Inr dest"
  shows "(\<exists>row. result_of connect db f m tb q row) \<longleftrightarrow>
         (\<exists>r rest. snd (scan dest (statement f m tb (Some 1) (snd q)) thresholds []) =
            Inr (Some (r # rest)))"
proof
  assume "\<exists>row. result_of connect db f m tb q row"
  then obtain cs ci sim rest where
    "snd (scan dest (statement f m tb (Some 1) (snd q)) thresholds []) =
       Inr (Some ((cs, ci, sim) # rest))"
    unfolding result_of_iff using assms by auto
  then show "\<exists>r rest. snd (scan dest (statement f m tb (Some 1) (snd q)) thresholds []) =
      Inr (Some (r # rest))"
    by blast
next
  assume "\<exists>r rest. snd (scan dest (statement f m tb (Some 1) (snd q)) thresholds []) =
      Inr (Some (r # rest))"
  then obtain r rest where
    s: "snd (scan dest (statement f m tb (Some 1) (snd q)) thresholds []) = Inr (Some (r # rest))"
    by blast
  obtain cs ci sim where "r = (cs, ci, sim)" by (cases r)
  with s assms have "result_of connect db f m tb q (cs, ci, sim, fst q, snd q)"
    unfolding result_of_iff by auto
  then show "\<exists>row. result_of connect db f m tb q row" ..
qed

lemma result_of_rows:
  assumes conn: "connect db = Inr dest"
    and run: "for_smiles dest f m tb batch [] [] = Some (reqs, Inr rows)"
  shows "list_all2 (result_of connect db f m tb) batch rows"
proof -
  from for_smiles_rows [OF run] have len: "length rows = length batch"
    and each: "\<forall>i<length batch. \<exists>cs ci sim rest.
        snd (scan dest (statement f m tb (Some 1) (snd (batch ! i))) thresholds []) =
          Inr (Some ((cs, ci, sim) # rest)) \<and>
        rows ! i = (cs, ci, sim, fst (batch ! i), snd (batch ! i))"
    by auto
  show ?thesis
  proof (rule list_all2_all_nthI)
    show "length batch = length rows" using len by simp
  next
    fix i assume "i < length batch"
    with each obtain cs ci sim rest where
      s: "snd (scan dest (statement f m tb (Some 1) (snd (batch ! i))) thresholds []) =
          Inr (Some ((cs, ci, sim) # rest))"
      and r: "rows ! i = (cs, ci, sim, fst (batch ! i), snd (batch ! i))"
      by blast
    obtain l where "scan dest (statement f m tb (Some 1) (snd (batch ! i))) thresholds [] =
        (l, Inr (Some ((cs, ci, sim) # rest)))"
      using s by (cases "scan dest (statement f m tb (Some 1) (snd (batch ! i))) thresholds []") simp
    then show "result_of connect db f m tb (batch ! i) (rows ! i)"
      by (simp add: result_of_def conn get_similarity_scan r)
  qed
qed

text \<open>
  Claim C6, as stated, fails: a matched query does not always contribute a row. In the
  scenario the batch is \<^verbatim>\<open>q1\<close>, for which the adaptive search returns a row, followed by
  \<^verbatim>\<open>q2\<close>, for which no threshold gives any: the worker raises \<^verbatim>\<open>TypeError\<close> at \<^verbatim>\<open>q2\<close>, and
  its output holds no row for \<^verbatim>\<open>q1\<close>.
\<close>

theorem worker_rows_in_batch_order_counterexample:
  "calc_sim_for_smiles example_connect [(''q1'', ''CCO''), (''q2'', ''XYZ'')]
     ''chembl.db'' ''morgan'' ''mol'' ''mols'' =
   Some (statement ''morgan'' ''mol'' ''mols'' (Some 1) ''CCO'' (6305039478318694, - 53) #
         map (statement ''morgan'' ''mol'' ''mols'' (Some 1) ''XYZ'') thresholds, Inl TypeError) \<and>
   result_of example_connect ''chembl.db'' ''morgan'' ''mol'' ''mols'' (''q1'', ''CCO'')
     (''CCO'', ''ref1'', (4503599627370496, - 52), ''q1'', ''CCO'')"
  by (simp add: calc_sim_for_smiles_def result_of_def example_connect_def get_similarity_scan
      example_scan_XYZ example_scan_CCO)

text \<open>
  Claim C6, amended. With the database open, the worker processes the queries of its
  batch in batch order, each with \<^verbatim>\<open>limit=1\<close>, up to the first query for which the
  adaptive search returns no row: the requests it executes are those of the first \<open>n\<close>
  queries, in batch order, and every one asks for one row. When the search returns a
  row for every query, the worker returns one row for each query, at the same position:
  the first row returned for the query, followed by the query's id and SMILES. Otherwise
  the worker raises at the first query without a row (the \<open>n\<close>-th): the queries after it
  are not processed and the worker returns no row at all, also none for the matched
  queries before it.
\<close>

theorem worker_rows_in_batch_order:
  assumes conn: "connect db = Inr dest"
  shows "\<exists>n reqs outcome.
           calc_sim_for_smiles connect batch db f m tb = Some (reqs, outcome) \<and>
           n \<le> length batch \<and>
           reqs = concat (map (\<lambda>q. fst (the (get_similarity dest f m tb (snd q) (Some 1))))
                           (take n batch)) \<and>
           list_all (\<lambda>req. sql_limit req = Some 1) reqs \<and>
           (case outcome of
              Inr rows \<Rightarrow>
                n = length batch \<and> list_all2 (result_of connect db f m tb) batch rows
            | Inl e \<Rightarrow>
                0 < n \<and> (\<forall>i<n - 1. \<exists>row. result_of connect db f m tb (batch ! i) row) \<and>
                (\<nexists>row. result_of connect db f m tb (batch ! (n - 1)) row))"
proof -
  let ?found = "\<lambda>q. \<exists>r rest.
      snd (scan dest (statement f m tb (Some 1) (snd q)) thresholds []) = Inr (Some (r # rest))"
  let ?reqs = "\<lambda>qs. concat (map (\<lambda>q. fst (scan dest (statement f m tb (Some 1) (snd q)) thresholds [])) qs)"
  have eq: "calc_sim_for_smiles connect batch db f m tb = for_smiles dest f m tb batch [] []"
    using conn by (simp add: calc_sim_for_smiles_def)
  have limit: "list_all (\<lambda>req. sql_limit req = Some 1) reqs"
    if "for_smiles dest f m tb batch [] [] = Some (reqs, outcome)" for reqs outcome
    using for_smiles_limit [OF that] by (simp add: list_all_iff)
  have reqs_eq: "?reqs qs =
      concat (map (\<lambda>q. fst (the (get_similarity dest f m tb (snd q) (Some 1)))) qs)" for qs
    by (simp add: get_similarity_scan)
  show ?thesis
  proof (cases "\<forall>q\<in>set batch. ?found q")
    case True
    from for_smiles_succeeds [OF True]
    obtain reqs rows where run: "for_smiles dest f m tb batch [] [] = Some (reqs, Inr rows)"
      by blast
    from for_smiles_rows [OF run] have "reqs = ?reqs batch"
      by simp
    then have "reqs = concat (map (\<lambda>q. fst (the (get_similarity dest f m tb (snd q) (Some 1))))
        (take (length batch) batch))"
      by (simp add: reqs_eq)
    moreover note limit [OF run] result_of_rows [where connect = connect and db = db, OF conn run]
    ultimately show ?thesis
      unfolding eq using run by (intro exI [of _ "length batch"] exI [of _ reqs]
          exI [of _ "Inr rows"]) simp
  next
    case False
    then obtain q0 where "q0 \<in> set batch" and q0: "\<not> ?found q0"
      by blast
    then obtain j0 where "j0 < length batch" "batch ! j0 = q0"
      by (meson in_set_conv_nth)
    with q0 have "\<exists>j. j < length batch \<and> \<not> ?found (batch ! j)"
      by blast
    then obtain j where j: "j < length batch" "\<not> ?found (batch ! j)"
      and least: "\<forall>i<j. \<not> (i < length batch \<and> \<not> ?found (batch ! i))"
      using exists_least_iff [of "\<lambda>j. j < length batch \<and> \<not> ?found (batch ! j)"] by blast
    from least j(1) have before: "\<forall>i<j. ?found (batch ! i)"
      by auto
    obtain mol_id smi where q: "batch ! j = (mol_id, smi)"
      by (cases "batch ! j")
    have split: "batch = take j batch @ (mol_id, smi) # drop (Suc j) batch"
      using id_take_nth_drop [OF j(1)] unfolding q .
    have pre: "\<forall>q\<in>set (take j batch). ?found q"
    proof
      fix q' assume "q' \<in> set (take j batch)"
      then obtain i where "i < length (take j batch)" "q' = take j batch ! i"
        by (auto simp: in_set_conv_nth)
      with before show "?found q'" by simp
    qed
    from j(2) q have bad: "\<nexists>r rest.
        snd (scan dest (statement f m tb (Some 1) smi) thresholds []) = Inr (Some (r # rest))"
      by simp
    from for_smiles_stops [OF pre bad, of mol_id "drop (Suc j) batch"]
    obtain e where "for_smiles dest f m tb (take j batch @ (mol_id, smi) # drop (Suc j) batch) [] [] =
        Some (?reqs (take j batch @ [(mol_id, smi)]), Inl e)"
      by blast
    then have run: "for_smiles dest f m tb batch [] [] = Some (?reqs (take (Suc j) batch), Inl e)"
      using j(1) q by (simp add: split [symmetric] take_Suc_conv_app_nth)
    have "\<forall>i<j. \<exists>row. result_of connect db f m tb (batch ! i) row"
      using before result_of_scan [where connect = connect and db = db, OF conn] by blast
    moreover have "\<nexists>row. result_of connect db f m tb (batch ! j) row"
      using j(2) result_of_scan [where connect = connect and db = db, OF conn] by blast
    moreover note limit [OF run]
    ultimately show ?thesis
      unfolding eq using run j(1)
      by (intro exI [of _ "Suc j"] exI [of _ "?reqs (take (Suc j) batch)"] exI [of _ "Inl e"])
        (simp add: reqs_eq)
  qed
qed

theorem worker_rows_in_batch_order_witness:
  "example_connect ''chembl.db'' = Inr (range_query example_similarities) \<and>
   calc_sim_for_smiles example_connect [(''q1'', ''CCO''), (''q3'', ''CCN'')]
     ''chembl.db'' ''morgan'' ''mol'' ''mols'' =
   Some ([statement ''morgan'' ''mol'' ''mols'' (Some 1) ''CCO'' (6305039478318694, - 53),
          statement ''morgan'' ''mol'' ''mols'' (Some 1) ''CCN'' (6305039478318694, - 53),
          statement ''morgan'' ''mol'' ''mols'' (Some 1) ''CCN'' (5404319552844595, - 53),
          statement ''morgan'' ''mol'' ''mols'' (Some 1) ''CCN'' (4503599627370496, - 53)],
         Inr [(''CCO'', ''ref1'', (4503599627370496, - 52), ''q1'', ''CCO''),
              (''CCO'', ''ref1'', (4953959590107546, - 53), ''q3'', ''CCN'')]) \<and>
   list_all2 (result_of example_connect ''chembl.db'' ''morgan'' ''mol'' ''mols'')
     [(''q1'', ''CCO''), (''q3'', ''CCN'')]
     [(''CCO'', ''ref1'', (4503599627370496, - 52), ''q1'', ''CCO''),
      (''CCO'', ''ref1'', (4953959590107546, - 53), ''q3'', ''CCN'')] \<and>
   list_all (\<lambda>req. sql_limit req = Some 1)
     [statement ''morgan'' ''mol'' ''mols'' (Some 1) ''CCO'' (6305039478318694, - 53),
      statement ''morgan'' ''mol'' ''mols'' (Some 1) ''CCN'' (6305039478318694, - 53),
      statement ''morgan'' ''mol'' ''mols'' (Some 1) ''CCN'' (5404319552844595, - 53),
      statement ''morgan'' ''mol'' ''mols'' (Some 1) ''CCN'' (4503599627370496, - 53)]"
proof -
  let ?batch = "[(''q1'', ''CCO''), (''q3'', ''CCN'')]"
  let ?rows = "[(''CCO'', ''ref1'', (4503599627370496 :: int, - 52 :: int), ''q1'', ''CCO''),
      (''CCO'', ''ref1'', (4953959590107546, - 53), ''q3'', ''CCN'')]"
  have conn: "example_connect ''chembl.db'' = Inr (range_query example_similarities)"
    by (simp add: example_connect_def)
  from worker_rows_in_batch_order [of example_connect "''chembl.db''"
      "range_query example_similarities" ?batch "''morgan''" "''mol''" "''mols''", OF conn]
  obtain n reqs outcome where
    run: "calc_sim_for_smiles example_connect ?batch ''chembl.db'' ''morgan'' ''mol'' ''mols'' =
      Some (reqs, outcome)"
    and limit: "list_all (\<lambda>req. sql_limit req = Some 1) reqs"
    and rows: "case outcome of
        Inr rows \<Rightarrow> n = length ?batch \<and>
          list_all2 (result_of example_connect ''chembl.db'' ''morgan'' ''mol'' ''mols'') ?batch rows
      | Inl e \<Rightarrow> 0 < n \<and>
          (\<forall>i<n - 1. \<exists>row. result_of example_connect ''chembl.db'' ''morgan'' ''mol'' ''mols''
              (?batch ! i) row) \<and>
          (\<nexists>row. result_of example_connect ''chembl.db'' ''morgan'' ''mol'' ''mols''
              (?batch ! (n - 1)) row)"
    by blast
  from run have reqs: "reqs =
      [statement ''morgan'' ''mol'' ''mols'' (Some 1) ''CCO'' (6305039478318694, - 53),
       statement ''morgan'' ''mol'' ''mols'' (Some 1) ''CCN'' (6305039478318694, - 53),
       statement ''morgan'' ''mol'' ''mols'' (Some 1) ''CCN'' (5404319552844595, - 53),
       statement ''morgan'' ''mol'' ''mols'' (Some 1) ''CCN'' (4503599627370496, - 53)]"
    and outcome: "outcome = Inr ?rows"
    unfolding example_worker by simp_all
  from rows have "list_all2 (result_of example_connect ''chembl.db'' ''morgan'' ''mol'' ''mols'')
      ?batch ?rows"
    unfolding outcome by simp
  with conn example_worker limit show ?thesis
    unfolding reqs by blast
qed

section \<open>The options that are not used\<close>

lemma scan_extends: "\<exists>l. fst (scan con stmt ts ex) = ex @ l"
proof (induction ts arbitrary: ex)
  case Nil
  then show ?case by simp
next
  case (Cons t ts)
  from Cons [of "ex @ [stmt t]"] show ?case
    by (auto split: sum.splits)
qed

lemma scan_first_request: "\<exists>l. fst (scan con stmt (t # ts) []) = stmt t # l"
  using scan_extends [of con stmt ts "[stmt t]"] by (auto split: sum.splits)

text \<open>
  Claim C4. The parsed option \<^verbatim>\<open>--threshold\<close> has no effect: \<open>main\<close> gives the same
  result for any two values of it, in every world. The loop always starts at the
  literal \<^verbatim>\<open>0.7\<close>: its first request carries that threshold.
\<close>

theorem threshold_option_unused:
  "main connect read_csv (a\<lparr>threshold := t1\<rparr>) completion =
   main connect read_csv (a\<lparr>threshold := t2\<rparr>) completion \<and>
   (\<exists>executed r. get_similarity con f m tb q lm = Some (executed, r) \<and>
      param_threshold (hd executed) = float_0_7)"
proof -
  obtain l where "fst (scan con (statement f m tb lm q) thresholds []) =
      statement f m tb lm q (6305039478318694, - 53) # l"
    unfolding thresholds_def using scan_first_request by blast
  then have "\<exists>executed r. scan con (statement f m tb lm q) thresholds [] = (executed, r) \<and>
      param_threshold (hd executed) = float_0_7"
    by (cases "scan con (statement f m tb lm q) thresholds []")
      (simp add: float_0_7_def statement_def)
  then show ?thesis
    by (simp add: main_def get_similarity_scan cong: option.case_cong sum.case_cong if_cong)
qed

text \<open>
  Claim C9. The parsed option \<^verbatim>\<open>--limit\<close> has no effect: \<open>main\<close> gives the same result for
  any two values of it, in every world; and every request a worker executes asks for
  at most one row (\<^verbatim>\<open>LIMIT 1\<close>).
\<close>

theorem limit_option_unused:
  "main connect read_csv (a\<lparr>limit := l1\<rparr>) completion =
   main connect read_csv (a\<lparr>limit := l2\<rparr>) completion \<and>
   (calc_sim_for_smiles connect smiles db f m tb = Some (reqs, r) \<longrightarrow>
      list_all (\<lambda>req. sql_limit req = Some 1) reqs)"
proof -
  have "list_all (\<lambda>req. sql_limit req = Some 1) reqs"
    if "calc_sim_for_smiles connect smiles db f m tb = Some (reqs, r)"
  proof (cases "connect db")
    case (Inl e)
    with that show ?thesis by (simp add: calc_sim_for_smiles_def)
  next
    case (Inr dest)
    with that have "for_smiles dest f m tb smiles [] [] = Some (reqs, r)"
      by (simp add: calc_sim_for_smiles_def)
    from for_smiles_limit [OF this] show ?thesis by (simp add: list_all_iff)
  qed
  then show ?thesis by (simp add: main_def cong: option.case_cong sum.case_cong if_cong)
qed

theorem limit_option_unused_witness:
  "calc_sim_for_smiles example_connect [(''q1'', ''CCO''), (''q3'', ''CCN'')]
     ''chembl.db'' ''morgan'' ''mol'' ''mols'' =
   Some ([statement ''morgan'' ''mol'' ''mols'' (Some 1) ''CCO'' (6305039478318694, - 53),
          statement ''morgan'' ''mol'' ''mols'' (Some 1) ''CCN'' (6305039478318694, - 53),
          statement ''morgan'' ''mol'' ''mols'' (Some 1) ''CCN'' (5404319552844595, - 53),
          statement ''morgan'' ''mol'' ''mols'' (Some 1) ''CCN'' (4503599627370496, - 53)],
         Inr [(''CCO'', ''ref1'', (4503599627370496, - 52), ''q1'', ''CCO''),
              (''CCO'', ''ref1'', (4953959590107546, - 53), ''q3'', ''CCN'')]) \<and>
   list_all (\<lambda>req. sql_limit req = Some 1)
     [statement ''morgan'' ''mol'' ''mols'' (Some 1) ''CCO'' (6305039478318694, - 53),
      statement ''morgan'' ''mol'' ''mols'' (Some 1) ''CCN'' (6305039478318694, - 53),
      statement ''morgan'' ''mol'' ''mols'' (Some 1) ''CCN'' (5404319552844595, - 53),
      statement ''morgan'' ''mol'' ''mols'' (Some 1) ''CCN'' (4503599627370496, - 53)]"
proof -
  have "list_all (\<lambda>req. sql_limit req = Some 1)
     [statement ''morgan'' ''mol'' ''mols'' (Some 1) ''CCO'' (6305039478318694, - 53),
      statement ''morgan'' ''mol'' ''mols'' (Some 1) ''CCN'' (6305039478318694, - 53),
      statement ''morgan'' ''mol'' ''mols'' (Some 1) ''CCN'' (5404319552844595, - 53),
      statement ''morgan'' ''mol'' ''mols'' (Some 1) ''CCN'' (4503599627370496, - 53)]"
    using limit_option_unused [THEN conjunct2, rule_format, OF example_worker] .
  with example_worker show ?thesis by simp
qed

section \<open>The run\<close>

lemma for_smiles_queries:
  assumes "for_smiles dest f m tb batch [] [] = Some (reqs, Inr rows)"
  shows "map (\<lambda>(chembl_smi, chembl_id, sim, mol_id, smi). (mol_id, smi)) rows = batch"
proof -
  from for_smiles_rows [OF assms] have len: "length rows = length batch"
    and each: "\<forall>i<length batch. \<exists>cs ci sim. rows ! i = (cs, ci, sim, fst (batch ! i), snd (batch ! i))"
    by auto
  show ?thesis
  proof (rule nth_equalityI)
    show "length (map (\<lambda>(chembl_smi, chembl_id, sim, mol_id, smi). (mol_id, smi)) rows) = length batch"
      using len by simp
  next
    fix i assume "i < length (map (\<lambda>(chembl_smi, chembl_id, sim, mol_id, smi). (mol_id, smi)) rows)"
    then have i: "i < length batch" using len by simp
    with each obtain cs ci sim where "rows ! i = (cs, ci, sim, fst (batch ! i), snd (batch ! i))"
      by blast
    with i len show "map (\<lambda>(chembl_smi, chembl_id, sim, mol_id, smi). (mol_id, smi)) rows ! i = batch ! i"
      by simp
  qed
qed

lemma calc_sim_queries:
  assumes "calc_sim_for_smiles connect batch db f m tb = Some (reqs, Inr rows)"
  shows "map (\<lambda>(chembl_smi, chembl_id, sim, mol_id, smi). (mol_id, smi)) rows = batch"
proof (cases "connect db")
  case (Inl e)
  with assms show ?thesis by (simp add: calc_sim_for_smiles_def)
next
  case (Inr dest)
  with assms have "for_smiles dest f m tb batch [] [] = Some (reqs, Inr rows)"
    by (simp add: calc_sim_for_smiles_def)
  then show ?thesis by (rule for_smiles_queries)
qed

lemma main_completes:
  assumes out: "output_path a = Some path" and csv: "read_csv (input_smiles a) = Inr df"
    and cover: "\<forall>i<length (chunked (ncpu a) df). i \<in> set completion"
    and run: "main connect read_csv a completion = Some (lines, Inr ())"
  shows "(\<forall>c\<in>set (chunked (ncpu a) df). \<exists>reqs rows.
            calc_sim_for_smiles connect c (input_db a) (fp a) (mol_field a) (table a) =
              Some (reqs, Inr rows)) \<and>
         lines = Header # map write_row
           (concat (map (\<lambda>c. projr (snd (the
              (calc_sim_for_smiles connect c (input_db a) (fp a) (mol_field a) (table a)))))
              (chunked (ncpu a) df)))"
proof -
  let ?worker = "\<lambda>c. calc_sim_for_smiles connect c (input_db a) (fp a) (mol_field a) (table a)"
  let ?results = "map (\<lambda>c. Some (snd (the (?worker c)))) (chunked (ncpu a) df)"
  have workers: "0 < ncpu a"
  proof (rule ccontr)
    assume "\<not> 0 < ncpu a"
    then have "main connect read_csv a completion = Some ([], Inl ValueError)"
      using main_no_workers [of a path read_csv df connect completion, OF out csv] by simp
    with run show False by simp
  qed
  from run obtain rows where s: "sum_results ?results [] = Some (Inr rows)"
    and lines: "lines = Header # map write_row rows"
    unfolding main_run [of a path read_csv df completion connect, OF out csv cover workers]
    by (auto split: option.splits sum.splits)
  from s have all: "\<forall>r\<in>set ?results. \<exists>x. r = Some (Inr x)"
    and rows: "rows = concat (map (\<lambda>r. projr (the r)) ?results)"
    by (simp_all add: sum_results_Inr)
  have "\<forall>c\<in>set (chunked (ncpu a) df). \<exists>reqs rows. ?worker c = Some (reqs, Inr rows)"
  proof
    fix c assume "c \<in> set (chunked (ncpu a) df)"
    with all obtain x where x: "snd (the (?worker c)) = Inr x" by auto
    obtain r where r: "?worker c = Some r" using calc_sim_total by blast
    with x show "\<exists>reqs rows. ?worker c = Some (reqs, Inr rows)"
      by (cases r) auto
  qed
  moreover have "rows = concat (map (\<lambda>c. projr (snd (the (?worker c)))) (chunked (ncpu a) df))"
    using rows by (simp add: comp_def)
  ultimately show ?thesis using lines by simp
qed

lemma main_rows_in_query_order:
  assumes out: "output_path a = Some path" and csv: "read_csv (input_smiles a) = Inr df"
    and cover: "\<forall>i<length (chunked (ncpu a) df). i \<in> set completion"
    and ncpu: "1 \<le> ncpu a"
    and run: "main connect read_csv a completion = Some (lines, Inr ())"
  shows "\<exists>rows. lines = Header # map write_row rows \<and>
           map (\<lambda>(chembl_smi, chembl_id, sim, mol_id, smi). (mol_id, smi)) rows = df"
proof -
  let ?worker = "\<lambda>c. calc_sim_for_smiles connect c (input_db a) (fp a) (mol_field a) (table a)"
  let ?q = "\<lambda>(chembl_smi :: string, chembl_id :: string, sim :: float64, mol_id :: string, smi :: string). (mol_id, smi)"
  let ?rows = "concat (map (\<lambda>c. projr (snd (the (?worker c)))) (chunked (ncpu a) df))"
  from main_completes [OF out csv cover run]
  have ok: "\<forall>c\<in>set (chunked (ncpu a) df). \<exists>reqs rows. ?worker c = Some (reqs, Inr rows)"
    and lines: "lines = Header # map write_row ?rows"
    by blast+
  have "map ?q ?rows = concat (map (\<lambda>c. map ?q (projr (snd (the (?worker c))))) (chunked (ncpu a) df))"
    by (simp add: map_concat comp_def)
  also have "\<dots> = concat (map (\<lambda>c. c) (chunked (ncpu a) df))"
  proof (rule arg_cong [where f = concat], rule map_cong [OF refl])
    fix c assume "c \<in> set (chunked (ncpu a) df)"
    with ok obtain reqs rows where w: "?worker c = Some (reqs, Inr rows)" by blast
    from calc_sim_queries [OF w] w show "map ?q (projr (snd (the (?worker c)))) = c"
      by simp
  qed
  also have "\<dots> = df"
    using ncpu by (simp add: concat_chunked)
  finally show ?thesis using lines by blast
qed

lemma example_chunks:
  "chunked 2 [(''q1'', ''CCO''), (''q3'', ''CCN''), (''q4'', ''CCO'')] =
     [[(''q1'', ''CCO''), (''q3'', ''CCN'')], [(''q4'', ''CCO'')]]"
  by (simp add: chunked.simps)

lemma example_worker_q4:
  "calc_sim_for_smiles example_connect [(''q4'', ''CCO'')] ''chembl.db'' ''morgan'' ''mol'' ''mols'' =
   Some ([statement ''morgan'' ''mol'' ''mols'' (Some 1) ''CCO'' (6305039478318694, - 53)],
         Inr [(''CCO'', ''ref1'', (4503599627370496, - 52), ''q4'', ''CCO'')])"
  by (simp add: calc_sim_for_smiles_def example_connect_def get_similarity_scan example_scan_CCO)

lemma example_main:
  "\<forall>i<2. i \<in> set completion \<Longrightarrow>
   main example_connect example_read_csv example_args completion =
     Some ([Header,
            Row ''CCO'' ''q1'' ''CCO'' ''ref1'' (4503599627370496, - 52),
            Row ''CCN'' ''q3'' ''CCO'' ''ref1'' (4953959590107546, - 53),
            Row ''CCO'' ''q4'' ''CCO'' ''ref1'' (4503599627370496, - 52)], Inr ())"
proof -
  assume "\<forall>i<2. i \<in> set completion"
  then have cover: "\<forall>i<length (chunked (ncpu example_args)
      [(''q1'', ''CCO''), (''q3'', ''CCN''), (''q4'', ''CCO'')]). i \<in> set completion"
    by (simp add: example_args_def example_chunks)
  have out: "output_path example_args = Some ''out.tsv''"
    by (simp add: example_args_def)
  have csv: "example_read_csv (input_smiles example_args) =
      Inr [(''q1'', ''CCO''), (''q3'', ''CCN''), (''q4'', ''CCO'')]"
    by (simp add: example_args_def example_read_csv_def)
  have workers: "0 < ncpu example_args"
    by (simp add: example_args_def)
  show ?thesis
    unfolding main_run [of example_args "''out.tsv''" example_read_csv
        "[(''q1'', ''CCO''), (''q3'', ''CCN''), (''q4'', ''CCO'')]" completion example_connect,
        OF out csv cover workers]
    by (simp add: example_args_def example_chunks example_worker example_worker_q4
        example_rounded)
qed

text \<open>
  Claim C3, as stated, fails: the results are not concatenated in completion order. In
  the scenario there are two worker processes and two chunks, \<^verbatim>\<open>q1\<close>, \<^verbatim>\<open>q3\<close> and \<^verbatim>\<open>q4\<close>; the
  task of the second chunk completes first. The output is in the order of the input,
  \<^verbatim>\<open>q1\<close>, \<^verbatim>\<open>q3\<close>, \<^verbatim>\<open>q4\<close>, and not in the completion order \<^verbatim>\<open>q4\<close>, \<^verbatim>\<open>q1\<close>, \<^verbatim>\<open>q3\<close>.
\<close>

theorem submission_order_counterexample:
  "main example_connect example_read_csv example_args [1, 0] =
     Some ([Header,
            Row ''CCO'' ''q1'' ''CCO'' ''ref1'' (4503599627370496, - 52),
            Row ''CCN'' ''q3'' ''CCO'' ''ref1'' (4953959590107546, - 53),
            Row ''CCO'' ''q4'' ''CCO'' ''ref1'' (4503599627370496, - 52)], Inr ()) \<and>
   main example_connect example_read_csv example_args [1, 0] \<noteq>
     Some ([Header,
            Row ''CCO'' ''q4'' ''CCO'' ''ref1'' (4503599627370496, - 52),
            Row ''CCO'' ''q1'' ''CCO'' ''ref1'' (4503599627370496, - 52),
            Row ''CCN'' ''q3'' ''CCO'' ''ref1'' (4953959590107546, - 53)], Inr ())"
proof -
  have "\<forall>i<2. i \<in> set [1, 0 :: nat]"
    by (simp add: less_Suc_eq numeral_2_eq_2)
  from example_main [OF this] show ?thesis by simp
qed

text \<open>
  Claim C3, amended. For every number of workers \<open>\<ge> 1\<close> and every order in which the tasks
  of the chunks complete, the dispatcher concatenates the results of the chunks in the
  order of submission (\<^verbatim>\<open>Executor.map\<close> yields results in the order of its input): the
  run is the same as when the tasks complete in the order of the chunks, and when it
  completes, the rows written are those of the queries in the original query order.
\<close>

theorem results_in_submission_order:
  assumes out: "output_path a = Some path" and csv: "read_csv (input_smiles a) = Inr df"
    and ncpu: "1 \<le> ncpu a"
    and cover: "\<forall>i<length (chunked (ncpu a) df). i \<in> set completion"
  shows "main connect read_csv a completion =
           main connect read_csv a [0..<length (chunked (ncpu a) df)] \<and>
         (\<forall>lines. main connect read_csv a completion = Some (lines, Inr ()) \<longrightarrow>
            (\<exists>rows. lines = Header # map write_row rows \<and>
               map (\<lambda>(chembl_smi, chembl_id, sim, mol_id, smi). (mol_id, smi)) rows = df))"
proof -
  have cover': "\<forall>i<length (chunked (ncpu a) df). i \<in> set [0..<length (chunked (ncpu a) df)]"
    by simp
  have "main connect read_csv a completion =
           main connect read_csv a [0..<length (chunked (ncpu a) df)]"
    using ncpu
    by (simp only: main_run [of a path read_csv df completion connect, OF out csv cover]
        main_run [of a path read_csv df "[0..<length (chunked (ncpu a) df)]" connect, OF out csv cover']
        less_eq_Suc_le [symmetric] One_nat_def)
  moreover have "\<forall>lines. main connect read_csv a completion = Some (lines, Inr ()) \<longrightarrow>
            (\<exists>rows. lines = Header # map write_row rows \<and>
               map (\<lambda>(chembl_smi, chembl_id, sim, mol_id, smi). (mol_id, smi)) rows = df)"
    using main_rows_in_query_order [of a path read_csv df completion connect, OF out csv cover ncpu]
    by blast
  ultimately show ?thesis by blast
qed

theorem results_in_submission_order_witness:
  "output_path example_args = Some ''out.tsv'' \<and>
   example_read_csv (input_smiles example_args) =
     Inr [(''q1'', ''CCO''), (''q3'', ''CCN''), (''q4'', ''CCO'')] \<and>
   1 \<le> ncpu example_args \<and>
   length (chunked (ncpu example_args) [(''q1'', ''CCO''), (''q3'', ''CCN''), (''q4'', ''CCO'')]) = 2 \<and>
   main example_connect example_read_csv example_args [1, 0] =
     main example_connect example_read_csv example_args [0..<2] \<and>
   main example_connect example_read_csv example_args [1, 0] =
     Some (Header # map write_row
             [(''CCO'', ''ref1'', (4503599627370496, - 52), ''q1'', ''CCO''),
              (''CCO'', ''ref1'', (4953959590107546, - 53), ''q3'', ''CCN''),
              (''CCO'', ''ref1'', (4503599627370496, - 52), ''q4'', ''CCO'')], Inr ()) \<and>
   map (\<lambda>(chembl_smi, chembl_id, sim, mol_id, smi). (mol_id, smi))
     [(''CCO'', ''ref1'', (4503599627370496 :: int, - 52 :: int), ''q1'', ''CCO''),
      (''CCO'', ''ref1'', (4953959590107546, - 53), ''q3'', ''CCN''),
      (''CCO'', ''ref1'', (4503599627370496, - 52), ''q4'', ''CCO'')] =
     [(''q1'', ''CCO''), (''q3'', ''CCN''), (''q4'', ''CCO'')]"
proof -
  let ?df = "[(''q1'', ''CCO''), (''q3'', ''CCN''), (''q4'', ''CCO'')]"
  have out: "output_path example_args = Some ''out.tsv''"
    by (simp add: example_args_def)
  have csv: "example_read_csv (input_smiles example_args) = Inr ?df"
    by (simp add: example_args_def example_read_csv_def)
  have ncpu: "1 \<le> ncpu example_args"
    by (simp add: example_args_def)
  have len: "length (chunked (ncpu example_args) ?df) = 2"
    by (simp add: example_args_def example_chunks)
  have cover: "\<forall>i<length (chunked (ncpu example_args) ?df). i \<in> set [1, 0]"
    unfolding len by (simp add: less_Suc_eq numeral_2_eq_2)
  have run: "main example_connect example_read_csv example_args [1, 0] =
     Some (Header # map write_row
             [(''CCO'', ''ref1'', (4503599627370496, - 52), ''q1'', ''CCO''),
              (''CCO'', ''ref1'', (4953959590107546, - 53), ''q3'', ''CCN''),
              (''CCO'', ''ref1'', (4503599627370496, - 52), ''q4'', ''CCO'')], Inr ())"
    by (subst example_main) (simp_all add: less_Suc_eq numeral_2_eq_2 example_rounded)
  from results_in_submission_order [of example_args "''out.tsv''" example_read_csv ?df "[1, 0]"
      example_connect, OF out csv ncpu cover]
  have "main example_connect example_read_csv example_args [1, 0] =
     main example_connect example_read_csv example_args [0..<2]"
    unfolding len by blast
  with out csv ncpu len run show ?thesis by simp
qed

section \<open>Exceptions\<close>



section \<open>The number of results\<close>

lemma calc_sim_results:
  assumes "calc_sim_for_smiles connect batch db f m tb = Some (reqs, Inr rows)"
  shows "list_all2 (result_of connect db f m tb) batch rows"
proof (cases "connect db")
  case (Inl e)
  with assms show ?thesis by (simp add: calc_sim_for_smiles_def)
next
  case (Inr dest)
  with assms have fs: "for_smiles dest f m tb batch [] [] = Some (reqs, Inr rows)"
    by (simp add: calc_sim_for_smiles_def)
  from for_smiles_rows [OF fs] have len: "length rows = length batch"
    and each: "\<forall>i<length batch. \<exists>cs ci sim rest.
        snd (scan dest (statement f m tb (Some 1) (snd (batch ! i))) thresholds []) =
          Inr (Some ((cs, ci, sim) # rest)) \<and>
        rows ! i = (cs, ci, sim, fst (batch ! i), snd (batch ! i))"
    by auto
  show ?thesis
  proof (rule list_all2_all_nthI)
    show "length batch = length rows" using len by simp
  next
    fix i assume "i < length batch"
    with each Inr show "result_of connect db f m tb (batch ! i) (rows ! i)"
      unfolding result_of_iff by blast
  qed
qed

lemma result_of_first_match:
  "result_of connect db f m tb q row \<Longrightarrow>
   \<exists>dest k rows. connect db = Inr dest \<and> first_match dest (statement f m tb (Some 1) (snd q)) k rows"
  unfolding result_of_iff using scan_Some_iff by blast

lemma list_all2_concat:
  "list_all2 (list_all2 P) xss yss \<Longrightarrow> list_all2 P (concat xss) (concat yss)"
  by (induction xss yss rule: list_all2_induct) (auto intro: list_all2_appendI)

lemma main_results:
  assumes out: "output_path a = Some path" and csv: "read_csv (input_smiles a) = Inr df"
    and cover: "\<forall>i<length (chunked (ncpu a) df). i \<in> set completion"
    and ncpu: "1 \<le> ncpu a"
    and run: "main connect read_csv a completion = Some (lines, Inr ())"
  shows "\<exists>rows. lines = Header # map write_row rows \<and>
           list_all2 (result_of connect (input_db a) (fp a) (mol_field a) (table a)) df rows"
proof -
  let ?worker = "\<lambda>c. calc_sim_for_smiles connect c (input_db a) (fp a) (mol_field a) (table a)"
  let ?P = "result_of connect (input_db a) (fp a) (mol_field a) (table a)"
  let ?rowss = "map (\<lambda>c. projr (snd (the (?worker c)))) (chunked (ncpu a) df)"
  from main_completes [of a path read_csv df completion connect lines, OF out csv cover run]
  have ok: "\<forall>c\<in>set (chunked (ncpu a) df). \<exists>reqs rows. ?worker c = Some (reqs, Inr rows)"
    and lines: "lines = Header # map write_row (concat ?rowss)"
    by blast+
  have "list_all2 (list_all2 ?P) (chunked (ncpu a) df) ?rowss"
  proof (rule list_all2_all_nthI)
    show "length (chunked (ncpu a) df) = length ?rowss" by simp
  next
    fix i assume i: "i < length (chunked (ncpu a) df)"
    with ok obtain reqs rows where w: "?worker (chunked (ncpu a) df ! i) = Some (reqs, Inr rows)"
      by (meson nth_mem)
    from calc_sim_results [OF w] w i
    show "list_all2 ?P (chunked (ncpu a) df ! i) (?rowss ! i)"
      by simp
  qed
  then have "list_all2 ?P (concat (chunked (ncpu a) df)) (concat ?rowss)"
    by (rule list_all2_concat)
  then have "list_all2 ?P df (concat ?rowss)"
    using ncpu by (simp add: concat_chunked)
  with lines show ?thesis by blast
qed

lemma calc_sim_returns_iff:
  assumes "batch \<noteq> []"
  shows "(\<exists>reqs rows. calc_sim_for_smiles connect batch db f m tb = Some (reqs, Inr rows)) \<longleftrightarrow>
         (\<forall>q\<in>set batch. \<exists>row. result_of connect db f m tb q row)"
proof
  assume "\<exists>reqs rows. calc_sim_for_smiles connect batch db f m tb = Some (reqs, Inr rows)"
  then obtain reqs rows where "calc_sim_for_smiles connect batch db f m tb = Some (reqs, Inr rows)"
    by blast
  from calc_sim_results [OF this]
  have rel: "list_all2 (result_of connect db f m tb) batch rows" .
  show "\<forall>q\<in>set batch. \<exists>row. result_of connect db f m tb q row"
  proof
    fix q assume "q \<in> set batch"
    then obtain i where "i < length batch" "q = batch ! i"
      by (auto simp: in_set_conv_nth)
    with rel have "result_of connect db f m tb q (rows ! i)"
      by (simp add: list_all2_conv_all_nth)
    then show "\<exists>row. result_of connect db f m tb q row" ..
  qed
next
  assume all: "\<forall>q\<in>set batch. \<exists>row. result_of connect db f m tb q row"
  from assms obtain q where "q \<in> set batch" by (cases batch) auto
  with all obtain row where "result_of connect db f m tb q row" by blast
  then obtain dest where conn: "connect db = Inr dest"
    unfolding result_of_iff by blast
  have "\<forall>q\<in>set batch. \<exists>r rest.
      snd (scan dest (statement f m tb (Some 1) (snd q)) thresholds []) = Inr (Some (r # rest))"
  proof
    fix q assume "q \<in> set batch"
    with all obtain row where "result_of connect db f m tb q row" by blast
    with conn show "\<exists>r rest.
      snd (scan dest (statement f m tb (Some 1) (snd q)) thresholds []) = Inr (Some (r # rest))"
      unfolding result_of_iff by auto
  qed
  from for_smiles_succeeds [OF this]
  show "\<exists>reqs rows. calc_sim_for_smiles connect batch db f m tb = Some (reqs, Inr rows)"
    using conn by (simp add: calc_sim_for_smiles_def)
qed

lemma write_row_fields:
  "write_row = (\<lambda>(chembl_smi, chembl_id, sim, mol_id, smi_sql).
      Row smi_sql mol_id chembl_smi chembl_id (py_round sim 4))"
  by (simp add: fun_eq_iff)

text \<open>
  The run when the adaptive search returns a row for every query: every worker returns,
  and the lines written after the header are the results of the queries, in the order of
  the queries, the similarity rounded to four decimals.
\<close>

lemma main_all_found:
  assumes out: "output_path a = Some path" and csv: "read_csv (input_smiles a) = Inr df"
    and ncpu: "1 \<le> ncpu a"
    and waited: "\<forall>i<length (chunked (ncpu a) df).
        (\<forall>j<i. \<exists>reqs rows.
           calc_sim_for_smiles connect (chunked (ncpu a) df ! j) (input_db a) (fp a)
             (mol_field a) (table a) = Some (reqs, Inr rows)) \<longrightarrow> i \<in> set completion"
    and found: "\<forall>q\<in>set df. \<exists>row.
        result_of connect (input_db a) (fp a) (mol_field a) (table a) q row"
  shows "\<exists>rows. list_all2 (result_of connect (input_db a) (fp a) (mol_field a) (table a)) df rows \<and>
           main connect read_csv a completion =
             Some (Header # map (\<lambda>(chembl_smi, chembl_id, sim, mol_id, smi_sql).
                      Row smi_sql mol_id chembl_smi chembl_id (py_round sim 4)) rows, Inr ())"
proof -
  let ?chunks = "chunked (ncpu a) df"
  let ?worker = "\<lambda>c. calc_sim_for_smiles connect c (input_db a) (fp a) (mol_field a) (table a)"
  from ncpu have workers: "0 < ncpu a" by simp
  have returns: "\<exists>reqs rows. ?worker c = Some (reqs, Inr rows)" if c: "c \<in> set ?chunks" for c
  proof -
    from c have ne: "c \<noteq> []"
      using chunked_nonempty by blast
    have "set c \<subseteq> set (concat ?chunks)"
      using c by auto
    then have "set c \<subseteq> set df"
      using workers by (simp add: concat_chunked)
    with found have "\<forall>q\<in>set c. \<exists>row.
        result_of connect (input_db a) (fp a) (mol_field a) (table a) q row"
      by blast
    then show ?thesis
      using calc_sim_returns_iff [OF ne] by blast
  qed
  have cover: "\<forall>i<length ?chunks. i \<in> set completion"
  proof (intro allI impI)
    fix i assume i: "i < length ?chunks"
    have "\<forall>j<i. \<exists>reqs rows. ?worker (?chunks ! j) = Some (reqs, Inr rows)"
      using i returns by simp
    with waited i show "i \<in> set completion" by blast
  qed
  let ?results = "map (\<lambda>c. Some (snd (the (?worker c)))) ?chunks"
  have "\<forall>r\<in>set ?results. \<exists>x. r = Some (Inr x)"
  proof
    fix r assume "r \<in> set ?results"
    then obtain c where c: "c \<in> set ?chunks" and r: "r = Some (snd (the (?worker c)))"
      by auto
    from returns [OF c] r show "\<exists>x. r = Some (Inr x)" by auto
  qed
  then have "sum_results ?results [] = Some (Inr (concat (map (\<lambda>r. projr (the r)) ?results)))"
    by (simp add: sum_results_Inr)
  then have run: "main connect read_csv a completion =
      Some (Header # map write_row (concat (map (\<lambda>r. projr (the r)) ?results)), Inr ())"
    unfolding main_run [of a path read_csv df completion connect, OF out csv cover workers]
    by simp
  from main_results [of a path read_csv df completion connect _, OF out csv cover ncpu run]
  obtain rows where lines: "Header # map write_row (concat (map (\<lambda>r. projr (the r)) ?results)) =
      Header # map write_row rows"
    and rel: "list_all2 (result_of connect (input_db a) (fp a) (mol_field a) (table a)) df rows"
    by blast
  from run lines have "main connect read_csv a completion = Some (Header # map write_row rows, Inr ())"
    by simp
  with rel show ?thesis
    unfolding write_row_fields by blast
qed

text \<open>
  The run when the adaptive search returns no row for some query: the worker of its chunk
  raises, the run ends with the exception of the first chunk whose worker raises, and no
  line but the header is written.
\<close>

lemma main_some_not_found:
  assumes out: "output_path a = Some path" and csv: "read_csv (input_smiles a) = Inr df"
    and ncpu: "1 \<le> ncpu a"
    and waited: "\<forall>i<length (chunked (ncpu a) df).
        (\<forall>j<i. \<exists>reqs rows.
           calc_sim_for_smiles connect (chunked (ncpu a) df ! j) (input_db a) (fp a)
             (mol_field a) (table a) = Some (reqs, Inr rows)) \<longrightarrow> i \<in> set completion"
    and missing: "q \<in> set df"
      "\<nexists>row. result_of connect (input_db a) (fp a) (mol_field a) (table a) q row"
  shows "\<exists>e. main connect read_csv a completion = Some ([Header], Inl e)"
proof -
  let ?chunks = "chunked (ncpu a) df"
  let ?worker = "\<lambda>c. calc_sim_for_smiles connect c (input_db a) (fp a) (mol_field a) (table a)"
  from ncpu have workers: "0 < ncpu a" by simp
  from missing(1) have "q \<in> set (concat ?chunks)"
    using workers by (simp add: concat_chunked)
  then obtain c where c: "c \<in> set ?chunks" and q: "q \<in> set c"
    by auto
  from c obtain i where i: "i < length ?chunks" and ci: "c = ?chunks ! i"
    by (auto simp: in_set_conv_nth)
  from c have ne: "c \<noteq> []"
    using chunked_nonempty by blast
  from q missing(2) have "\<not> (\<exists>reqs rows. ?worker c = Some (reqs, Inr rows))"
    using calc_sim_returns_iff [OF ne] by blast
  moreover obtain r where r: "?worker c = Some r"
    using calc_sim_total by blast
  ultimately obtain reqs e where "?worker c = Some (reqs, Inl e)"
    by (cases r; cases "snd r") auto
  then have "?worker (?chunks ! i) = Some (reqs, Inl e)"
    by (simp add: ci)
  from first_failing_chunk [OF this]
  obtain j reqs' e' where j: "j \<le> i" and raised: "?worker (?chunks ! j) = Some (reqs', Inl e')"
    and before: "\<forall>j'<j. \<exists>reqs'' rows. ?worker (?chunks ! j') = Some (reqs'', Inr rows)"
    by blast
  from j i have jlen: "j < length ?chunks" by simp
  have "\<forall>i'\<le>j. i' \<in> set completion"
  proof (intro allI impI)
    fix i' assume i': "i' \<le> j"
    with before have "\<forall>j'<i'. \<exists>reqs'' rows. ?worker (?chunks ! j') = Some (reqs'', Inr rows)"
      by simp
    moreover from i' jlen have "i' < length ?chunks" by simp
    ultimately show "i' \<in> set completion"
      using waited by blast
  qed
  from main_first_exception [of a path read_csv df j connect reqs' e' completion,
      OF out csv jlen raised before this]
  show ?thesis by blast
qed

lemma example_scan_CCC:
  "scan (range_query example_similarities) (statement f m tb (Some 1) ''CCC'') thresholds [] =
     ([statement f m tb (Some 1) ''CCC'' (6305039478318694, - 53),
       statement f m tb (Some 1) ''CCC'' (5404319552844595, - 53)],
      Inr (Some [(''CCO'', ''ref1'', (6004799503160661, - 53))]))"
  unfolding thresholds_def range_query_def statement_def example_similarities_def float_le_def
    Let_def
  by simp

lemma example_mixed_chunks:
  "chunked 2 [(''q2'', ''XYZ''), (''q1'', ''CCO''), (''q3'', ''CCN'')] =
     [[(''q2'', ''XYZ''), (''q1'', ''CCO'')], [(''q3'', ''CCN'')]]"
  by (simp add: chunked.simps)

lemma example_mixed_worker:
  "calc_sim_for_smiles example_connect [(''q2'', ''XYZ''), (''q1'', ''CCO'')]
     ''chembl.db'' ''morgan'' ''mol'' ''mols'' =
   Some (map (statement ''morgan'' ''mol'' ''mols'' (Some 1) ''XYZ'') thresholds, Inl TypeError)"
  by (simp add: calc_sim_for_smiles_def example_connect_def get_similarity_scan example_scan_XYZ)

text \<open>
  Claim C8, as stated, fails: a query that finds a match does not always give a result.
  In the scenario the input file \<^verbatim>\<open>mixed.csv\<close> holds \<^verbatim>\<open>q2\<close>, for which no threshold gives a
  row, and \<^verbatim>\<open>q1\<close> and \<^verbatim>\<open>q3\<close>, for which the adaptive search returns a row. No request
  raises, yet the run ends with the \<^verbatim>\<open>TypeError\<close> of \<^verbatim>\<open>res[0]\<close> and the output holds the
  header alone: no result for \<^verbatim>\<open>q1\<close> and none for \<^verbatim>\<open>q3\<close>.
\<close>

theorem match_result_cardinality_counterexample:
  "main example_connect example_read_csv (example_args\<lparr>input_smiles := ''mixed.csv''\<rparr>) [0, 1] =
     Some ([Header], Inl TypeError) \<and>
   result_of example_connect ''chembl.db'' ''morgan'' ''mol'' ''mols'' (''q1'', ''CCO'')
     (''CCO'', ''ref1'', (4503599627370496, - 52), ''q1'', ''CCO'') \<and>
   result_of example_connect ''chembl.db'' ''morgan'' ''mol'' ''mols'' (''q3'', ''CCN'')
     (''CCO'', ''ref1'', (4953959590107546, - 53), ''q3'', ''CCN'')"
proof -
  let ?a = "example_args\<lparr>input_smiles := ''mixed.csv''\<rparr>"
  let ?df = "[(''q2'', ''XYZ''), (''q1'', ''CCO''), (''q3'', ''CCN'')]"
  have out: "output_path ?a = Some ''out.tsv''"
    by (simp add: example_args_def)
  have csv: "example_read_csv (input_smiles ?a) = Inr ?df"
    by (simp add: example_read_csv_def)
  have chunks: "chunked (ncpu ?a) ?df = [[(''q2'', ''XYZ''), (''q1'', ''CCO'')], [(''q3'', ''CCN'')]]"
    by (simp add: example_args_def example_mixed_chunks)
  have j: "0 < length (chunked (ncpu ?a) ?df)"
    unfolding chunks by simp
  have raised: "calc_sim_for_smiles example_connect (chunked (ncpu ?a) ?df ! 0)
      (input_db ?a) (fp ?a) (mol_field ?a) (table ?a) =
      Some (map (statement ''morgan'' ''mol'' ''mols'' (Some 1) ''XYZ'') thresholds, Inl TypeError)"
    unfolding chunks using example_mixed_worker by (simp add: example_args_def)
  have "main example_connect example_read_csv ?a [0, 1] = Some ([Header], Inl TypeError)"
    by (rule main_first_exception [of ?a "''out.tsv''" example_read_csv ?df 0 example_connect
          _ TypeError "[0, 1]", OF out csv j raised]) simp_all
  moreover have "result_of example_connect ''chembl.db'' ''morgan'' ''mol'' ''mols'' (''q1'', ''CCO'')
     (''CCO'', ''ref1'', (4503599627370496, - 52), ''q1'', ''CCO'')"
    by (simp add: result_of_def example_connect_def get_similarity_scan example_scan_CCO)
  moreover have "result_of example_connect ''chembl.db'' ''morgan'' ''mol'' ''mols'' (''q3'', ''CCN'')
     (''CCO'', ''ref1'', (4953959590107546, - 53), ''q3'', ''CCN'')"
    by (simp add: result_of_def example_connect_def get_similarity_scan example_scan_CCN)
  ultimately show ?thesis by blast
qed

text \<open>
  Claim C8, amended. In every run (the output file and the input file opened, at least
  one worker, every task that the dispatcher waits for finishing): if the adaptive search
  returns a row for every query, the run completes and writes exactly one result for
  each query, in the order of the queries, the result of that query with its similarity
  rounded to four decimals; otherwise the run ends with an exception and writes no
  result at all, also none for the queries that found a match. So the number of results
  is at most the number of queries, and the two are equal if and only if every query
  finds a match.
\<close>

theorem match_result_cardinality:
  assumes out: "output_path a = Some path" and csv: "read_csv (input_smiles a) = Inr df"
    and ncpu: "1 \<le> ncpu a"
    and waited: "\<forall>i<length (chunked (ncpu a) df).
        (\<forall>j<i. \<exists>reqs rows.
           calc_sim_for_smiles connect (chunked (ncpu a) df ! j) (input_db a) (fp a)
             (mol_field a) (table a) = Some (reqs, Inr rows)) \<longrightarrow> i \<in> set completion"
  shows "\<exists>lines outcome.
           main connect read_csv a completion = Some (lines, outcome) \<and>
           length (tl lines) \<le> length df \<and>
           (length (tl lines) = length df \<longleftrightarrow>
              (\<forall>q\<in>set df. \<exists>row.
                  result_of connect (input_db a) (fp a) (mol_field a) (table a) q row)) \<and>
           (if \<forall>q\<in>set df. \<exists>row.
                  result_of connect (input_db a) (fp a) (mol_field a) (table a) q row
            then outcome = Inr () \<and>
                 (\<exists>rows.
                    list_all2 (result_of connect (input_db a) (fp a) (mol_field a) (table a))
                      df rows \<and>
                    lines = Header # map (\<lambda>(chembl_smi, chembl_id, sim, mol_id, smi_sql).
                      Row smi_sql mol_id chembl_smi chembl_id (py_round sim 4)) rows)
            else lines = [Header] \<and> (\<exists>e. outcome = Inl e))"
proof (cases "\<forall>q\<in>set df. \<exists>row.
    result_of connect (input_db a) (fp a) (mol_field a) (table a) q row")
  case True
  from main_all_found [of a path read_csv df connect completion, OF out csv ncpu waited True]
  obtain rows where
    rel: "list_all2 (result_of connect (input_db a) (fp a) (mol_field a) (table a)) df rows"
    and run: "main connect read_csv a completion =
      Some (Header # map (\<lambda>(chembl_smi, chembl_id, sim, mol_id, smi_sql).
              Row smi_sql mol_id chembl_smi chembl_id (py_round sim 4)) rows, Inr ())"
    by blast
  from rel have "length rows = length df"
    by (simp add: list_all2_lengthD)
  with True rel run show ?thesis by auto
next
  case False
  then obtain q where q: "q \<in> set df"
    "\<nexists>row. result_of connect (input_db a) (fp a) (mol_field a) (table a) q row"
    by blast
  from main_some_not_found [of a path read_csv df connect completion q, OF out csv ncpu waited q]
  obtain e where run: "main connect read_csv a completion = Some ([Header], Inl e)"
    by blast
  from q(1) have "0 < length df" by (cases df) auto
  with False run show ?thesis by auto
qed

theorem match_result_cardinality_witness:
  "output_path (example_args\<lparr>input_smiles := ''thirds.csv''\<rparr>) = Some ''out.tsv'' \<and>
   example_read_csv (input_smiles (example_args\<lparr>input_smiles := ''thirds.csv''\<rparr>)) =
     Inr [(''q1'', ''CCO''), (''q5'', ''CCC'')] \<and>
   1 \<le> ncpu (example_args\<lparr>input_smiles := ''thirds.csv''\<rparr>) \<and>
   chunked (ncpu (example_args\<lparr>input_smiles := ''thirds.csv''\<rparr>))
     [(''q1'', ''CCO''), (''q5'', ''CCC'')] = [[(''q1'', ''CCO''), (''q5'', ''CCC'')]] \<and>
   result_of example_connect ''chembl.db'' ''morgan'' ''mol'' ''mols'' (''q1'', ''CCO'')
     (''CCO'', ''ref1'', (4503599627370496, - 52), ''q1'', ''CCO'') \<and>
   result_of example_connect ''chembl.db'' ''morgan'' ''mol'' ''mols'' (''q5'', ''CCC'')
     (''CCO'', ''ref1'', (6004799503160661, - 53), ''q5'', ''CCC'') \<and>
   main example_connect example_read_csv (example_args\<lparr>input_smiles := ''thirds.csv''\<rparr>) [0] =
     Some ([Header,
            Row ''CCO'' ''q1'' ''CCO'' ''ref1'' (4503599627370496, - 52),
            Row ''CCC'' ''q5'' ''CCO'' ''ref1'' (6005099743135819, - 53)], Inr ())"
proof -
  let ?a = "example_args\<lparr>input_smiles := ''thirds.csv''\<rparr>"
  let ?df = "[(''q1'', ''CCO''), (''q5'', ''CCC'')]"
  let ?P = "result_of example_connect ''chembl.db'' ''morgan'' ''mol'' ''mols''"
  have out: "output_path ?a = Some ''out.tsv''"
    by (simp add: example_args_def)
  have csv: "example_read_csv (input_smiles ?a) = Inr ?df"
    by (simp add: example_read_csv_def)
  have ncpu: "1 \<le> ncpu ?a"
    by (simp add: example_args_def)
  have chunks: "chunked (ncpu ?a) ?df = [?df]"
    by (simp add: example_args_def chunked.simps)
  have waited: "\<forall>i<length (chunked (ncpu ?a) ?df).
        (\<forall>j<i. \<exists>reqs rows.
           calc_sim_for_smiles example_connect (chunked (ncpu ?a) ?df ! j) (input_db ?a) (fp ?a)
             (mol_field ?a) (table ?a) = Some (reqs, Inr rows)) \<longrightarrow> i \<in> set [0]"
    unfolding chunks by simp
  have q1: "?P (''q1'', ''CCO'') (''CCO'', ''ref1'', (4503599627370496, - 52), ''q1'', ''CCO'')"
    by (simp add: result_of_def example_connect_def get_similarity_scan example_scan_CCO)
  have q5: "?P (''q5'', ''CCC'') (''CCO'', ''ref1'', (6004799503160661, - 53), ''q5'', ''CCC'')"
    by (simp add: result_of_def example_connect_def get_similarity_scan example_scan_CCC)
  have fields: "input_db ?a = ''chembl.db''" "fp ?a = ''morgan''" "mol_field ?a = ''mol''"
    "table ?a = ''mols''"
    by (simp_all add: example_args_def)
  have found: "\<forall>q\<in>set ?df. \<exists>row.
      result_of example_connect (input_db ?a) (fp ?a) (mol_field ?a) (table ?a) q row"
    unfolding fields
  proof
    fix q :: "string \<times> string"
    assume "q \<in> set ?df"
    then have "q = (''q1'', ''CCO'') \<or> q = (''q5'', ''CCC'')" by simp
    with q1 q5 show "\<exists>row. ?P q row" by blast
  qed
  from match_result_cardinality [of ?a "''out.tsv''" example_read_csv ?df example_connect "[0]",
      OF out csv ncpu waited] found
  obtain rows where rel: "list_all2 ?P ?df rows"
    and run: "main example_connect example_read_csv ?a [0] =
      Some (Header # map (\<lambda>(chembl_smi, chembl_id, sim, mol_id, smi_sql).
              Row smi_sql mol_id chembl_smi chembl_id (py_round sim 4)) rows, Inr ())"
    unfolding fields by auto
  from rel obtain r1 r5 where rows: "rows = [r1, r5]" and r1: "?P (''q1'', ''CCO'') r1"
    and r5: "?P (''q5'', ''CCC'') r5"
    by (auto simp: list_all2_Cons1)
  from r1 have "r1 = (''CCO'', ''ref1'', (4503599627370496, - 52), ''q1'', ''CCO'')"
    by (simp add: result_of_def example_connect_def get_similarity_scan example_scan_CCO)
  moreover from r5 have "r5 = (''CCO'', ''ref1'', (6004799503160661, - 53), ''q5'', ''CCC'')"
    by (simp add: result_of_def example_connect_def get_similarity_scan example_scan_CCC)
  ultimately have "main example_connect example_read_csv ?a [0] =
     Some ([Header,
            Row ''CCO'' ''q1'' ''CCO'' ''ref1'' (4503599627370496, - 52),
            Row ''CCC'' ''q5'' ''CCO'' ''ref1'' (6005099743135819, - 53)], Inr ())"
    using run rows by (simp add: example_rounded)
  with out csv ncpu chunks q1 q5 show ?thesis by blast
qed


section \<open>Exceptions of the adapter\<close>








end
